theory Spec2Isabelle
  imports Complex_Main "HOL-Library.AList"
begin

section \<open>JavaScript values, strings and errors\<close>

text \<open>
  The development embeds the document engine of local-db: \<open>src/lib/collection.js\<close>
  (class \<open>Collection\<close>) and the helpers of \<open>src/lib/utils.js\<close> it calls.

  Strings are \<^typ>\<open>string\<close>; one \<^typ>\<open>char\<close> stands for one code unit and the
  model covers the code units below 256. Numbers are kept by value: two JSON numbers are \<open>===\<close> exactly when
  their values agree (\<open>-0\<close> and \<open>0\<close> included), and \<open>JSON.parse\<close> never yields \<open>NaN\<close>.
  A keyed structure is an association list in the enumeration order of \<open>for ... in\<close>,
  with one entry per key.
\<close>

datatype json =
    JNull
  | JBool bool
  | JNum rat
  | JStr string
  | JArr "json list"
  | JObj "(string \<times> json) list"

text \<open>
  An exception value: the three kinds the code tells apart are \<open>SyntaxError\<close>
  (\<open>instanceof SyntaxError\<close>), a system error with its \<open>code\<close> (\<open>error.code === 'ENOENT'\<close>)
  and everything else. Each carries its \<open>message\<close>.
\<close>

datatype js_error =
    SyntaxError string
  | TypeError string
  | SystemError string string
  | Error string

fun message :: "js_error \<Rightarrow> string" where
  "message (SyntaxError m) = m"
| "message (TypeError m) = m"
| "message (SystemError c m) = m"
| "message (Error m) = m"

fun code :: "js_error \<Rightarrow> string option" where
  "code (SystemError c m) = Some c"
| "code _ = None"

fun instanceofSyntaxError :: "js_error \<Rightarrow> bool" where
  "instanceofSyntaxError (SyntaxError m) = True"
| "instanceofSyntaxError _ = False"

subsection \<open>String methods\<close>

definition isWhitespace :: "char \<Rightarrow> bool" where
  "isWhitespace c \<longleftrightarrow>
     c \<in> set [CHR 0x09, CHR 0x0A, CHR 0x0B, CHR 0x0C, CHR 0x0D, CHR 0x20, CHR 0xA0]"

text \<open>
  \<open>String.prototype.trim\<close>: the white space below 256 is tab, line feed, vertical tab,
  form feed, carriage return, space and the no-break space.
\<close>

definition trim :: "string \<Rightarrow> string" where
  "trim s = rev (dropWhile isWhitespace (rev (dropWhile isWhitespace s)))"

text \<open>
  \<open>s.replace(/[...]/g, r)\<close> for a character class: every character of the class is
  replaced by the text \<open>r\<close>.
\<close>

definition replaceAll :: "(char \<Rightarrow> bool) \<Rightarrow> string \<Rightarrow> string \<Rightarrow> string" where
  "replaceAll cls r s = concat (map (\<lambda>c. if cls c then r else [c]) s)"

fun startsWith :: "string \<Rightarrow> string \<Rightarrow> bool" where
  "startsWith s [] = True"
| "startsWith [] (n # ns) = False"
| "startsWith (c # cs) (n # ns) = (c = n \<and> startsWith cs ns)"

text \<open>\<open>String.prototype.includes\<close>: the needle occurs as a contiguous run.\<close>

fun includesStr :: "string \<Rightarrow> string \<Rightarrow> bool" where
  "includesStr [] n = (n = [])"
| "includesStr (c # cs) n = (startsWith (c # cs) n \<or> includesStr cs n)"

definition endsWith :: "string \<Rightarrow> string \<Rightarrow> bool" where
  "endsWith s suf \<longleftrightarrow> length suf \<le> length s \<and> drop (length s - length suf) s = suf"

text \<open>
  \<open>String.prototype.toLowerCase\<close> on code units below 256: the letters A to Z and the
  accented capitals \<open>0xC0\<close> to \<open>0xDE\<close> (without the multiplication sign \<open>0xD7\<close>) change.
\<close>

definition upperLetters :: string where
  "upperLetters =
     ''ABCDEFGHIJKLMNOPQRSTUVWXYZ'' @
     [CHR 0xC0, CHR 0xC1, CHR 0xC2, CHR 0xC3, CHR 0xC4, CHR 0xC5, CHR 0xC6, CHR 0xC7,
      CHR 0xC8, CHR 0xC9, CHR 0xCA, CHR 0xCB, CHR 0xCC, CHR 0xCD, CHR 0xCE, CHR 0xCF,
      CHR 0xD0, CHR 0xD1, CHR 0xD2, CHR 0xD3, CHR 0xD4, CHR 0xD5, CHR 0xD6, CHR 0xD8,
      CHR 0xD9, CHR 0xDA, CHR 0xDB, CHR 0xDC, CHR 0xDD, CHR 0xDE]"

definition lowerLetters :: string where
  "lowerLetters =
     ''abcdefghijklmnopqrstuvwxyz'' @
     [CHR 0xE0, CHR 0xE1, CHR 0xE2, CHR 0xE3, CHR 0xE4, CHR 0xE5, CHR 0xE6, CHR 0xE7,
      CHR 0xE8, CHR 0xE9, CHR 0xEA, CHR 0xEB, CHR 0xEC, CHR 0xED, CHR 0xEE, CHR 0xEF,
      CHR 0xF0, CHR 0xF1, CHR 0xF2, CHR 0xF3, CHR 0xF4, CHR 0xF5, CHR 0xF6, CHR 0xF8,
      CHR 0xF9, CHR 0xFA, CHR 0xFB, CHR 0xFC, CHR 0xFD, CHR 0xFE]"

definition lowerChar :: "char \<Rightarrow> char" where
  "lowerChar c =
     (case map_of (zip upperLetters lowerLetters) c of
        Some l \<Rightarrow> l
      | None \<Rightarrow> c)"

definition toLowerCase :: "string \<Rightarrow> string" where
  "toLowerCase s = map lowerChar s"

text \<open>A non-negative integer inside a template literal: its decimal digits.\<close>

definition digit :: "nat \<Rightarrow> char" where
  "digit d = ''0123456789'' ! d"

function decimal :: "nat \<Rightarrow> string" where
  "decimal n = (if n < 10 then [digit n] else decimal (n div 10) @ [digit (n mod 10)])"
  by pat_completeness auto
termination
  by (relation "measure id") auto

declare decimal.simps [simp del]

section \<open>Identifier sanitization: \<open>Collection._getDocPath\<close>\<close>

text \<open>
  A path is the list of its segments; \<open>path.join(a, b)\<close> with a plain segment \<open>b\<close> appends
  it, and \<open>path.basename\<close> is the last segment. The collection name is one plain segment.
\<close>

type_synonym path = "string list"

record collection =
  rootDbPath :: path
  collectionName :: string

definition collectionPath :: "collection \<Rightarrow> path" where
  "collectionPath c = rootDbPath c @ [collectionName c]"

definition basename :: "path \<Rightarrow> string" where
  "basename p = (if p = [] then [] else last p)"

text \<open>
  The argument \<open>docId\<close> is any JavaScript value; only strings pass \<open>typeof\<close>. A value of
  another type is kept as the text a template literal renders for it.
\<close>

datatype doc_id = StringId string | NonStringId string

fun idText :: "doc_id \<Rightarrow> string" where
  "idText (StringId s) = s"
| "idText (NonStringId t) = t"

definition isSeparator :: "char \<Rightarrow> bool" where
  "isSeparator c \<longleftrightarrow> c \<in> set [CHR ''/'', CHR 0x5C]"

definition isReserved :: "char \<Rightarrow> bool" where
  "isReserved c \<longleftrightarrow> c \<in> set [CHR ''<'', CHR ''>'', CHR '':'', CHR 0x22, CHR ''|'', CHR ''?'', CHR ''*'']"

text \<open>\<open>docId.replace(/[/\\]/g, '_').replace(/[<>:"|?*]/g, '')\<close>\<close>

definition sanitizeDocId :: "string \<Rightarrow> string" where
  "sanitizeDocId docId = replaceAll isReserved [] (replaceAll isSeparator ''_'' docId)"

definition msgIdEmpty :: string where
  "msgIdEmpty = ''Document ID must be a non-empty string.''"

definition msgIdTraversal :: "string \<Rightarrow> string" where
  "msgIdTraversal docId =
     ''Invalid document ID format. Cannot contain '' @ [CHR 0x27] @ ''..'' @ [CHR 0x27] @ '': '' @ docId"

definition msgIdTooLong :: "string \<Rightarrow> string" where
  "msgIdTooLong docId = ''Document ID is too long: '' @ docId"

definition getDocPath :: "collection \<Rightarrow> doc_id \<Rightarrow> js_error + path" where
  "getDocPath c docId =
     (case docId of
        NonStringId t \<Rightarrow> Inl (Error msgIdEmpty)
      | StringId s \<Rightarrow>
          if trim s = [] then Inl (Error msgIdEmpty)
          else
            let sanitizedDocId = sanitizeDocId s in
            if includesStr sanitizedDocId ''..'' then Inl (Error (msgIdTraversal s))
            else if length sanitizedDocId > 200 then Inl (Error (msgIdTooLong s))
            else Inr (collectionPath c @ [sanitizedDocId @ ''.json'']))"

section \<open>The query matcher: \<open>_checkMatch\<close> and \<open>_checkLike\<close>\<close>

text \<open>
  \<open>docValue.hasOwnProperty(key)\<close> looks the method up on the document value itself. A
  decoded document that has an own key \<open>hasOwnProperty\<close> shadows the inherited method with
  a JSON value, which is not callable: the call raises \<open>TypeError\<close>.
\<close>

definition msgNotAFunction :: string where
  "msgNotAFunction = ''docValue.hasOwnProperty is not a function''"

definition hasOwnProperty :: "(string \<times> json) list \<Rightarrow> string \<Rightarrow> js_error + bool" where
  "hasOwnProperty d k =
     (if ''hasOwnProperty'' \<in> fst ` set d then Inl (TypeError msgNotAFunction)
      else Inr (k \<in> fst ` set d))"

text \<open>
  \<open>_checkMatch\<close>. The first equations are the branches for a sequence and for a keyed
  query value; the last is \<open>queryValue === null || typeof queryValue !== 'object'\<close>.
  \<open>matchIndexLoop\<close> is the loop over \<open>i\<close> (entered with equal lengths) and
  \<open>matchKeyLoop\<close> the loop \<open>for (const key in queryValue)\<close>.
\<close>

fun checkMatch :: "json \<Rightarrow> json \<Rightarrow> js_error + bool"
  and matchIndexLoop :: "json list \<Rightarrow> json list \<Rightarrow> js_error + bool"
  and matchKeyLoop :: "(string \<times> json) list \<Rightarrow> (string \<times> json) list \<Rightarrow> js_error + bool"
where
  "checkMatch d (JArr qs) =
     (case d of
        JArr ds \<Rightarrow> if length ds \<noteq> length qs then Inr False else matchIndexLoop ds qs
      | _ \<Rightarrow> Inr False)"
| "checkMatch d (JObj qo) =
     (case d of
        JObj dobj \<Rightarrow> matchKeyLoop dobj qo
      | _ \<Rightarrow> Inr False)"
| "checkMatch d q =
     (case d of
        JArr ds \<Rightarrow> Inr (q \<in> set ds)
      | _ \<Rightarrow> Inr (d = q))"
| "matchIndexLoop ds [] = Inr True"
| "matchIndexLoop ds (q # qs) =
     (case ds of
        [] \<Rightarrow> Inr False
      | d # ds' \<Rightarrow>
         (case checkMatch d q of
            Inl e \<Rightarrow> Inl e
          | Inr b \<Rightarrow> if b then matchIndexLoop ds' qs else Inr False))"
| "matchKeyLoop dobj [] = Inr True"
| "matchKeyLoop dobj (kv # rest) =
     (case hasOwnProperty dobj (fst kv) of
        Inl e \<Rightarrow> Inl e
      | Inr has \<Rightarrow>
         if \<not> has then Inr False
         else (case map_of dobj (fst kv) of
                 None \<Rightarrow> Inr False
               | Some dv \<Rightarrow>
                  (case checkMatch dv (snd kv) of
                     Inl e \<Rightarrow> Inl e
                   | Inr b \<Rightarrow> if b then matchKeyLoop dobj rest else Inr False)))"

text \<open>
  \<open>item => typeof item === 'string' && item.toLowerCase().includes(qvLower)\<close>
\<close>

fun likeItem :: "string \<Rightarrow> json \<Rightarrow> bool" where
  "likeItem qvLower (JStr item) = includesStr (toLowerCase item) qvLower"
| "likeItem qvLower _ = False"

fun checkLike :: "json \<Rightarrow> json \<Rightarrow> js_error + bool"
  and likeKeyLoop :: "(string \<times> json) list \<Rightarrow> (string \<times> json) list \<Rightarrow> js_error + bool"
where
  "checkLike d (JStr qv) =
     (case d of
        JStr dv \<Rightarrow> Inr (includesStr (toLowerCase dv) (toLowerCase qv))
      | JArr ds \<Rightarrow> Inr (list_ex (likeItem (toLowerCase qv)) ds)
      | _ \<Rightarrow> Inr False)"
| "checkLike d (JArr qs) = Inr False"
| "checkLike d (JObj qo) =
     (case d of
        JObj dobj \<Rightarrow> likeKeyLoop dobj qo
      | _ \<Rightarrow> Inr False)"
| "checkLike d q =
     (case d of
        JArr ds \<Rightarrow> Inr (q \<in> set ds)
      | _ \<Rightarrow> Inr (d = q))"
| "likeKeyLoop dobj [] = Inr True"
| "likeKeyLoop dobj (kv # rest) =
     (case hasOwnProperty dobj (fst kv) of
        Inl e \<Rightarrow> Inl e
      | Inr has \<Rightarrow>
         if \<not> has then Inr False
         else (case map_of dobj (fst kv) of
                 None \<Rightarrow> Inr False
               | Some dv \<Rightarrow>
                  (case checkLike dv (snd kv) of
                     Inl e \<Rightarrow> Inl e
                   | Inr b \<Rightarrow> if b then likeKeyLoop dobj rest else Inr False)))"

section \<open>The runtime: JSON built-ins, the clock and the file system\<close>

text \<open>
  The file system is an association list from paths to nodes, in directory enumeration
  order; the root \<open>[]\<close> is always a directory. A system call fails for the reasons the
  tree gives (a missing entry, a file where a directory is needed) or because the
  environment makes it fail (permissions, a full disk): \<open>io_fault\<close> names the error of a
  call the environment refuses.

  \<open>JSON.parse\<close>, \<open>JSON.stringify(\<cdot>, null, 2)\<close> and the library function \<open>jsonrepair\<close>
  are parameters, as is the reading of the clock by \<open>Date.now()\<close>. Console output is
  left out.
\<close>

datatype node = File string | Dir

type_synonym fs = "(path \<times> node) list"

datatype io_op = MkdirOp | StatOp | ReaddirOp | ReadFileOp | WriteFileOp | UnlinkOp

record env =
  JSON_parse :: "string \<Rightarrow> js_error + json"
  JSON_stringify :: "json \<Rightarrow> string"
  jsonrepair :: "string \<Rightarrow> js_error + string"
  Date_now :: nat
  io_fault :: "io_op \<Rightarrow> path \<Rightarrow> js_error option"

definition ENOENT :: js_error where
  "ENOENT = SystemError ''ENOENT'' ''ENOENT: no such file or directory''"

definition ENOTDIR :: js_error where
  "ENOTDIR = SystemError ''ENOTDIR'' ''ENOTDIR: not a directory''"

definition EISDIR :: js_error where
  "EISDIR = SystemError ''EISDIR'' ''EISDIR: illegal operation on a directory''"

definition EEXIST :: js_error where
  "EEXIST = SystemError ''EEXIST'' ''EEXIST: file already exists''"

definition nodeAt :: "fs \<Rightarrow> path \<Rightarrow> node option" where
  "nodeAt fs p = (if p = [] then Some Dir else map_of fs p)"

text \<open>Path resolution: every proper prefix of the path must be a directory.\<close>

fun lookupFrom :: "fs \<Rightarrow> path \<Rightarrow> path \<Rightarrow> js_error + node" where
  "lookupFrom fs cur [] =
     (case nodeAt fs cur of None \<Rightarrow> Inl ENOENT | Some n \<Rightarrow> Inr n)"
| "lookupFrom fs cur (s # rest) =
     (case nodeAt fs cur of
        None \<Rightarrow> Inl ENOENT
      | Some (File t) \<Rightarrow> Inl ENOTDIR
      | Some Dir \<Rightarrow> lookupFrom fs (cur @ [s]) rest)"

definition lookupPath :: "fs \<Rightarrow> path \<Rightarrow> js_error + node" where
  "lookupPath fs p = lookupFrom fs [] p"

definition stat :: "env \<Rightarrow> fs \<Rightarrow> path \<Rightarrow> js_error + node" where
  "stat env fs p =
     (case io_fault env StatOp p of Some e \<Rightarrow> Inl e | None \<Rightarrow> lookupPath fs p)"

definition readFile :: "env \<Rightarrow> fs \<Rightarrow> path \<Rightarrow> js_error + string" where
  "readFile env fs p =
     (case io_fault env ReadFileOp p of
        Some e \<Rightarrow> Inl e
      | None \<Rightarrow>
         (case lookupPath fs p of
            Inl e \<Rightarrow> Inl e
          | Inr Dir \<Rightarrow> Inl EISDIR
          | Inr (File t) \<Rightarrow> Inr t))"

text \<open>Writing a text to a path: the system calls behind \<open>fsp.writeFile\<close>.\<close>

definition writeText :: "env \<Rightarrow> fs \<Rightarrow> path \<Rightarrow> string \<Rightarrow> js_error + fs" where
  "writeText env fs p t =
     (case io_fault env WriteFileOp p of
        Some e \<Rightarrow> Inl e
      | None \<Rightarrow>
         if p = [] then Inl EISDIR
         else
           (case lookupPath fs (butlast p) of
              Inl e \<Rightarrow> Inl e
            | Inr (File u) \<Rightarrow> Inl ENOTDIR
            | Inr Dir \<Rightarrow>
               (case map_of fs p of
                  Some Dir \<Rightarrow> Inl EISDIR
                | _ \<Rightarrow> Inr (AList.update p (File t) fs))))"

text \<open>
  \<open>fsp.writeFile(path, data, 'utf8')\<close>. The data argument is a text or \<open>undefined\<close>; it is
  validated before any system call, and \<open>undefined\<close> is refused with a \<open>TypeError\<close>.
\<close>

definition msgInvalidData :: string where
  "msgInvalidData =
     ''The \"data\" argument must be of type string or an instance of Buffer, TypedArray, or DataView. Received undefined''"

definition writeFile :: "env \<Rightarrow> fs \<Rightarrow> path \<Rightarrow> string option \<Rightarrow> js_error + fs" where
  "writeFile env fs p data =
     (case data of
        None \<Rightarrow> Inl (TypeError msgInvalidData)
      | Some t \<Rightarrow> writeText env fs p t)"

definition unlink :: "env \<Rightarrow> fs \<Rightarrow> path \<Rightarrow> js_error + fs" where
  "unlink env fs p =
     (case io_fault env UnlinkOp p of
        Some e \<Rightarrow> Inl e
      | None \<Rightarrow>
         (case lookupPath fs p of
            Inl e \<Rightarrow> Inl e
          | Inr Dir \<Rightarrow> Inl EISDIR
          | Inr (File t) \<Rightarrow> Inr (AList.delete p fs)))"

definition readdir :: "env \<Rightarrow> fs \<Rightarrow> path \<Rightarrow> js_error + string list" where
  "readdir env fs p =
     (case io_fault env ReaddirOp p of
        Some e \<Rightarrow> Inl e
      | None \<Rightarrow>
         (case lookupPath fs p of
            Inl e \<Rightarrow> Inl e
          | Inr (File t) \<Rightarrow> Inl ENOTDIR
          | Inr Dir \<Rightarrow>
             Inr (map (\<lambda>e. last (fst e)) (filter (\<lambda>e. fst e \<noteq> [] \<and> butlast (fst e) = p) fs))))"

text \<open>\<open>fsp.mkdir(p, { recursive: true })\<close>: missing directories are created along the path.\<close>

fun mkdirFrom :: "fs \<Rightarrow> path \<Rightarrow> path \<Rightarrow> js_error + fs" where
  "mkdirFrom fs cur [] = Inr fs"
| "mkdirFrom fs cur (s # rest) =
     (case map_of fs (cur @ [s]) of
        None \<Rightarrow> mkdirFrom (fs @ [(cur @ [s], Dir)]) (cur @ [s]) rest
      | Some Dir \<Rightarrow> mkdirFrom fs (cur @ [s]) rest
      | Some (File t) \<Rightarrow> Inl (if rest = [] then EEXIST else ENOTDIR))"

definition mkdir :: "env \<Rightarrow> fs \<Rightarrow> path \<Rightarrow> js_error + fs" where
  "mkdir env fs p =
     (case io_fault env MkdirOp p of Some e \<Rightarrow> Inl e | None \<Rightarrow> mkdirFrom fs [] p)"

section \<open>The helpers of \<open>utils.js\<close>\<close>

definition renderPath :: "path \<Rightarrow> string" where
  "renderPath p = concat (map (\<lambda>s. ''/'' @ s) p)"

definition msgEnsureDir :: "path \<Rightarrow> js_error \<Rightarrow> string" where
  "msgEnsureDir dirPath error =
     ''Failed to create directory or path is not a directory: '' @ renderPath dirPath
       @ ''. '' @ message error"

definition ensureDirExists :: "env \<Rightarrow> fs \<Rightarrow> path \<Rightarrow> (js_error + unit) \<times> fs" where
  "ensureDirExists env fs dirPath =
     (case mkdir env fs dirPath of
        Inr fs' \<Rightarrow> (Inr (), fs')
      | Inl error \<Rightarrow>
         (case stat env fs dirPath of
            Inr Dir \<Rightarrow> (Inr (), fs)
          | _ \<Rightarrow> (Inl (Error (msgEnsureDir dirPath error)), fs)))"

definition backupFileName :: "string \<Rightarrow> nat \<Rightarrow> string" where
  "backupFileName docId timestamp =
     sanitizeDocId docId @ ''_'' @ decimal timestamp @ ''.json.bak''"

text \<open>The last argument is what \<open>JSON.stringify\<close> returned: a text or \<open>undefined\<close>.\<close>

definition backupDocument ::
  "env \<Rightarrow> fs \<Rightarrow> path \<Rightarrow> string \<Rightarrow> string \<Rightarrow> string option \<Rightarrow> (js_error + path) \<times> fs" where
  "backupDocument env fs rootPath colName docId jsonDataString =
     (let backupDirPath = rootPath @ [''.backup'', colName] in
      case ensureDirExists env fs backupDirPath of
        (Inl backupError, fs1) \<Rightarrow> (Inl backupError, fs1)
      | (Inr u, fs1) \<Rightarrow>
         (let backupFilePath = backupDirPath @ [backupFileName docId (Date_now env)] in
          case writeFile env fs1 backupFilePath jsonDataString of
            Inl backupError \<Rightarrow> (Inl backupError, fs1)
          | Inr fs2 \<Rightarrow> (Inr backupFilePath, fs2)))"

definition tryRepairAndParseJson :: "env \<Rightarrow> string \<Rightarrow> js_error + json" where
  "tryRepairAndParseJson env jsonString =
     (case JSON_parse env jsonString of
        Inr v \<Rightarrow> Inr v
      | Inl parseError \<Rightarrow>
         if instanceofSyntaxError parseError then
           (case jsonrepair env jsonString of
              Inl repairError \<Rightarrow> Inl parseError
            | Inr repairedJsonString \<Rightarrow>
               (case JSON_parse env repairedJsonString of
                  Inl repairError \<Rightarrow> Inl parseError
                | Inr v \<Rightarrow> Inr v))
         else Inl parseError)"

section \<open>Document operations: \<open>Collection.set\<close>, \<open>get\<close> and \<open>del\<close>\<close>

text \<open>
  The \<open>data\<close> argument of \<open>set\<close>: \<open>undefined\<close>; a value on which \<open>JSON.stringify\<close> throws
  (a circular structure, a BigInt), with the message of the exception; a function or a
  symbol, for which \<open>JSON.stringify\<close> returns \<open>undefined\<close> without throwing; or a JSON value.
\<close>

datatype js_value = Undefined | Unserializable string | FunctionOrSymbol | Json json

text \<open>\<open>JSON.stringify(data, null, 2)\<close>: an exception, \<open>undefined\<close> or a text.\<close>

fun stringify :: "env \<Rightarrow> js_value \<Rightarrow> js_error + string option" where
  "stringify env Undefined = Inr None"
| "stringify env (Unserializable m) = Inl (TypeError m)"
| "stringify env FunctionOrSymbol = Inr None"
| "stringify env (Json v) = Inr (Some (JSON_stringify env v))"

text \<open>\<open>{ success: true, id: docId, path: path.basename(docPath) }\<close>\<close>

datatype set_result = SetOk string string

text \<open>
  \<open>{ success: true, id: docId }\<close> and
  \<open>{ success: false, id: docId, message: 'Document not found.' }\<close>
\<close>

datatype del_result = Deleted string | NotFound string

definition quoted :: "string \<Rightarrow> string" where
  "quoted s = [CHR 0x27] @ s @ [CHR 0x27]"

definition msgUndefined :: string where
  "msgUndefined =
     ''Data to set cannot be undefined. Use null or an empty object/array ifneeded.''"

definition msgNotSerializable :: "string \<Rightarrow> string \<Rightarrow> string" where
  "msgNotSerializable docId m =
     ''Data for document ID '' @ quoted docId @ '' is not JSON serializable: '' @ m"

definition msgSetAndBackupFailed :: "string \<Rightarrow> js_error \<Rightarrow> js_error \<Rightarrow> string" where
  "msgSetAndBackupFailed docId writeError backupFailureError =
     ''Failed to set document '' @ quoted docId @ '' and also failed to backup: ''
       @ message writeError @ ''. Backup failure: '' @ message backupFailureError"

definition msgSetBackedUp :: "string \<Rightarrow> js_error \<Rightarrow> string" where
  "msgSetBackedUp docId writeError =
     ''Failed to set document '' @ quoted docId @ '': '' @ message writeError
       @ ''. Data was backed up.''"

definition msgGetFailed :: "string \<Rightarrow> js_error \<Rightarrow> string" where
  "msgGetFailed docId error =
     ''Failed to get document '' @ quoted docId @ '': '' @ message error"

definition msgDeleteFailed :: "string \<Rightarrow> js_error \<Rightarrow> string" where
  "msgDeleteFailed docId error =
     ''Failed to delete document '' @ quoted docId @ '': '' @ message error"

definition set_doc ::
  "collection \<Rightarrow> env \<Rightarrow> fs \<Rightarrow> doc_id \<Rightarrow> js_value \<Rightarrow> (js_error + set_result) \<times> fs" where
  "set_doc c env fs docId data =
     (if data = Undefined then (Inl (Error msgUndefined), fs)
      else
        (case stringify env data of
           Inl e \<Rightarrow> (Inl (Error (msgNotSerializable (idText docId) (message e))), fs)
         | Inr jsonDataString \<Rightarrow>
            (case getDocPath c docId of
               Inl e \<Rightarrow> (Inl e, fs)
             | Inr docPath \<Rightarrow>
                (case writeFile env fs docPath jsonDataString of
                   Inr fs' \<Rightarrow> (Inr (SetOk (idText docId) (basename docPath)), fs')
                 | Inl writeError \<Rightarrow>
                    (case backupDocument env fs (rootDbPath c) (collectionName c)
                            (idText docId) jsonDataString of
                       (Inl backupFailureError, fs') \<Rightarrow>
                         (Inl (Error (msgSetAndBackupFailed (idText docId) writeError
                                        backupFailureError)), fs')
                     | (Inr backupFilePath, fs') \<Rightarrow>
                         (Inl (Error (msgSetBackedUp (idText docId) writeError)), fs'))))))"

definition get_doc ::
  "collection \<Rightarrow> env \<Rightarrow> fs \<Rightarrow> doc_id \<Rightarrow> (js_error + json) \<times> fs" where
  "get_doc c env fs docId =
     (case getDocPath c docId of
        Inl e \<Rightarrow> (Inl e, fs)
      | Inr docPath \<Rightarrow>
         (case (case readFile env fs docPath of
                  Inl e \<Rightarrow> Inl e
                | Inr rawContent \<Rightarrow> tryRepairAndParseJson env rawContent) of
            Inr v \<Rightarrow> (Inr v, fs)
          | Inl error \<Rightarrow>
             if code error = Some ''ENOENT'' then (Inr JNull, fs)
             else (Inl (Error (msgGetFailed (idText docId) error)), fs)))"

definition del_doc ::
  "collection \<Rightarrow> env \<Rightarrow> fs \<Rightarrow> doc_id \<Rightarrow> (js_error + del_result) \<times> fs" where
  "del_doc c env fs docId =
     (case getDocPath c docId of
        Inl e \<Rightarrow> (Inl e, fs)
      | Inr docPath \<Rightarrow>
         (case unlink env fs docPath of
            Inr fs' \<Rightarrow> (Inr (Deleted (idText docId)), fs')
          | Inl error \<Rightarrow>
             if code error = Some ''ENOENT'' then (Inr (NotFound (idText docId)), fs)
             else (Inl (Error (msgDeleteFailed (idText docId) error)), fs)))"

section \<open>Scanning a collection: \<open>Collection.all\<close>\<close>

text \<open>
  The query argument is absent (\<open>undefined\<close>) or an object; its property \<open>search\<close> is absent
  or an object whose properties \<open>match\<close> and \<open>like\<close> are absent or keyed structures. Every
  other property of the query is kept in \<open>others\<close>; the code never reads it.
\<close>

record search_block =
  match_of :: "(string \<times> json) list option"
  like_of :: "(string \<times> json) list option"

record query =
  search :: "search_block option"
  others :: "(string \<times> json) list"

text \<open>\<open>!docContent\<close> holds of \<open>null\<close>, \<open>false\<close>, \<open>0\<close> and the empty text.\<close>

fun truthy :: "json \<Rightarrow> bool" where
  "truthy JNull = False"
| "truthy (JBool b) = b"
| "truthy (JNum n) = (n \<noteq> 0)"
| "truthy (JStr s) = (s \<noteq> [])"
| "truthy (JArr xs) = True"
| "truthy (JObj kvs) = True"

text \<open>
  The own properties of a decoded document: the keys of a keyed structure; the indices and
  \<open>length\<close> of a sequence or a text.
\<close>

definition indexOfKey :: "string \<Rightarrow> nat \<Rightarrow> nat option" where
  "indexOfKey k n = find (\<lambda>i. decimal i = k) [0..<n]"

fun ownProperty :: "json \<Rightarrow> string \<Rightarrow> json option" where
  "ownProperty (JObj kvs) k = map_of kvs k"
| "ownProperty (JArr xs) k =
     (if k = ''length'' then Some (JNum (of_nat (length xs)))
      else map_option (\<lambda>i. xs ! i) (indexOfKey k (length xs)))"
| "ownProperty (JStr s) k =
     (if k = ''length'' then Some (JNum (of_nat (length s)))
      else map_option (\<lambda>i. JStr [s ! i]) (indexOfKey k (length s)))"
| "ownProperty _ k = None"

definition msgNullProperty :: string where
  "msgNullProperty = ''Cannot read properties of null''"

fun hasOwnPropertyOf :: "json \<Rightarrow> string \<Rightarrow> js_error + bool" where
  "hasOwnPropertyOf (JObj kvs) k = hasOwnProperty kvs k"
| "hasOwnPropertyOf JNull k = Inl (TypeError msgNullProperty)"
| "hasOwnPropertyOf d k = Inr (ownProperty d k \<noteq> None)"

text \<open>
  The loop over the keys of a \<open>match\<close> or \<open>like\<close> block against the whole document:
  \<open>!docContent.hasOwnProperty(key) || !check(docContent[key], block[key])\<close> ends it.
\<close>

fun fieldLoop ::
  "(json \<Rightarrow> json \<Rightarrow> js_error + bool) \<Rightarrow> json \<Rightarrow> (string \<times> json) list \<Rightarrow> js_error + bool" where
  "fieldLoop check docContent [] = Inr True"
| "fieldLoop check docContent (kv # rest) =
     (case hasOwnPropertyOf docContent (fst kv) of
        Inl e \<Rightarrow> Inl e
      | Inr has \<Rightarrow>
         if \<not> has then Inr False
         else (case ownProperty docContent (fst kv) of
                 None \<Rightarrow> Inr False
               | Some dv \<Rightarrow>
                  (case check dv (snd kv) of
                     Inl e \<Rightarrow> Inl e
                   | Inr b \<Rightarrow> if b then fieldLoop check docContent rest else Inr False)))"

definition matchesQuery :: "search_block \<Rightarrow> json \<Rightarrow> js_error + bool" where
  "matchesQuery s docContent =
     (case (case match_of s of
              None \<Rightarrow> Inr True
            | Some m \<Rightarrow> fieldLoop checkMatch docContent m) of
        Inl e \<Rightarrow> Inl e
      | Inr ok \<Rightarrow>
         if \<not> ok then Inr False
         else (case like_of s of
                 None \<Rightarrow> Inr True
               | Some l \<Rightarrow> fieldLoop checkLike docContent l))"

text \<open>The part of the loop body inside \<open>try\<close>: read the file and decode it.\<close>

definition readDoc :: "env \<Rightarrow> fs \<Rightarrow> path \<Rightarrow> js_error + json" where
  "readDoc env fs docPath =
     (case readFile env fs docPath of
        Inl e \<Rightarrow> Inl e
      | Inr rawContent \<Rightarrow> tryRepairAndParseJson env rawContent)"

fun scanLoop ::
  "env \<Rightarrow> fs \<Rightarrow> path \<Rightarrow> query option \<Rightarrow> string list \<Rightarrow> json list \<Rightarrow> js_error + json list" where
  "scanLoop env fs colPath q [] results = Inr results"
| "scanLoop env fs colPath q (fileName # rest) results =
     (if \<not> endsWith fileName ''.json'' then scanLoop env fs colPath q rest results
      else
        (case readDoc env fs (colPath @ [fileName]) of
           Inl readOrParseError \<Rightarrow> scanLoop env fs colPath q rest results
         | Inr docContent \<Rightarrow>
            if \<not> truthy docContent then scanLoop env fs colPath q rest results
            else
              (case (case q of None \<Rightarrow> None | Some qr \<Rightarrow> search qr) of
                 None \<Rightarrow> scanLoop env fs colPath q rest (results @ [docContent])
               | Some s \<Rightarrow>
                  (case matchesQuery s docContent of
                     Inl e \<Rightarrow> Inl e
                   | Inr keep \<Rightarrow>
                      scanLoop env fs colPath q rest
                        (if keep then results @ [docContent] else results)))))"

definition msgReadCollection :: "string \<Rightarrow> js_error \<Rightarrow> string" where
  "msgReadCollection colName error =
     ''Failed to read collection '' @ quoted colName @ '': '' @ message error"

definition listFailed ::
  "collection \<Rightarrow> js_error \<Rightarrow> js_error + json list" where
  "listFailed c error =
     (if code error = Some ''ENOENT'' then Inr []
      else Inl (Error (msgReadCollection (collectionName c) error)))"

definition all_docs ::
  "collection \<Rightarrow> env \<Rightarrow> fs \<Rightarrow> query option \<Rightarrow> (js_error + json list) \<times> fs" where
  "all_docs c env fs q =
     (case ensureDirExists env fs (collectionPath c) of
        (Inl error, fs1) \<Rightarrow> (listFailed c error, fs1)
      | (Inr u, fs1) \<Rightarrow>
         (case readdir env fs1 (collectionPath c) of
            Inl error \<Rightarrow> (listFailed c error, fs1)
          | Inr filesInDir \<Rightarrow> (scanLoop env fs1 (collectionPath c) q filesInDir [], fs1)))"

section \<open>Reference definitions\<close>

text \<open>
  The predicates as the specification words them, to be compared with \<open>checkMatch\<close> and
  \<open>checkLike\<close>. \<open>matches_spec\<close>: a primitive or null query value is contained in a sequence or
  equal to the document value; a sequence needs a sequence of equal length that matches at
  every index; a keyed structure needs a keyed structure that has every key of the query
  with a matching value.
\<close>

fun matches_spec :: "json \<Rightarrow> json \<Rightarrow> bool" where
  "matches_spec d (JArr qs) =
     (case d of JArr ds \<Rightarrow> list_all2 matches_spec ds qs | _ \<Rightarrow> False)"
| "matches_spec d (JObj qo) =
     (case d of
        JObj dobj \<Rightarrow>
          list_all (\<lambda>kv. case map_of dobj (fst kv) of
                            None \<Rightarrow> False
                          | Some dv \<Rightarrow> matches_spec dv (snd kv)) qo
      | _ \<Rightarrow> False)"
| "matches_spec d q = (case d of JArr ds \<Rightarrow> q \<in> set ds | _ \<Rightarrow> d = q)"

text \<open>
  \<open>like_spec\<close>: a text query value is contained, case-insensitively, in a text or in some
  text element of a sequence; a sequence query value never passes; a keyed structure needs
  a keyed structure and recurses per key; another primitive or null behaves as in
  \<open>matches_spec\<close>.
\<close>

fun like_spec :: "json \<Rightarrow> json \<Rightarrow> bool" where
  "like_spec d (JStr qv) =
     (case d of
        JStr dv \<Rightarrow> includesStr (toLowerCase dv) (toLowerCase qv)
      | JArr ds \<Rightarrow> (\<exists>item \<in> set ds. \<exists>t. item = JStr t \<and> includesStr (toLowerCase t) (toLowerCase qv))
      | _ \<Rightarrow> False)"
| "like_spec d (JArr qs) = False"
| "like_spec d (JObj qo) =
     (case d of
        JObj dobj \<Rightarrow>
          list_all (\<lambda>kv. case map_of dobj (fst kv) of
                            None \<Rightarrow> False
                          | Some dv \<Rightarrow> like_spec dv (snd kv)) qo
      | _ \<Rightarrow> False)"
| "like_spec d q = (case d of JArr ds \<Rightarrow> q \<in> set ds | _ \<Rightarrow> d = q)"

text \<open>No keyed structure inside the value has an own key \<open>hasOwnProperty\<close>.\<close>

fun shadowFree :: "json \<Rightarrow> bool" where
  "shadowFree (JArr ds) = list_all shadowFree ds"
| "shadowFree (JObj dobj) =
     (''hasOwnProperty'' \<notin> fst ` set dobj \<and> list_all (\<lambda>kv. shadowFree (snd kv)) dobj)"
| "shadowFree d = True"

text \<open>
  Sanitization as the specification words it: the separators and the reserved characters
  are removed.
\<close>

definition strip_spec :: "string \<Rightarrow> string" where
  "strip_spec rawId = filter (\<lambda>c. \<not> isSeparator c \<and> \<not> isReserved c) rawId"



text \<open>Calling \<open>del\<close> \<open>n\<close> times in a row on the same identifier; the results in order.\<close>

fun del_repeat ::
  "collection \<Rightarrow> env \<Rightarrow> fs \<Rightarrow> doc_id \<Rightarrow> nat \<Rightarrow> (js_error + del_result) list \<times> fs" where
  "del_repeat c env fs docId 0 = ([], fs)"
| "del_repeat c env fs docId (Suc n) =
     (case del_doc c env fs docId of
        (r, fs1) \<Rightarrow>
          (case del_repeat c env fs1 docId n of (rs, fs2) \<Rightarrow> (r # rs, fs2)))"

text \<open>
  What \<open>get\<close> contributes to a scan for one identifier: its value when it returns one that
  is truthy, nothing when it raises or returns a falsy value.
\<close>

definition keptByScan :: "collection \<Rightarrow> env \<Rightarrow> fs \<Rightarrow> string \<Rightarrow> json option" where
  "keptByScan c env fs docId =
     (case fst (get_doc c env fs (StringId docId)) of
        Inl e \<Rightarrow> None
      | Inr v \<Rightarrow> if truthy v then Some v else None)"

definition docFileName :: "string \<Rightarrow> string" where
  "docFileName docId = sanitizeDocId docId @ ''.json''"

text \<open>
  What one directory entry contributes to a scan without a query: the decoded content of
  an entry whose name ends in \<open>.json\<close>, when it can be read and decoded and is truthy.
\<close>

definition keptEntry :: "env \<Rightarrow> fs \<Rightarrow> path \<Rightarrow> string \<Rightarrow> json option" where
  "keptEntry env fs colPath fileName =
     (if endsWith fileName ''.json'' then
        (case readDoc env fs (colPath @ [fileName]) of
           Inl e \<Rightarrow> None
         | Inr d \<Rightarrow> if truthy d then Some d else None)
      else None)"

subsection \<open>A sample environment\<close>

text \<open>
  A finite fragment of the built-ins, enough to run the operations on small inputs: the
  texts and values of the two tables below; any other text counts as malformed and beyond
  repair, except the one repairable text \<open>{a:1}\<close>.
\<close>

definition sampleTexts :: "(string \<times> json) list" where
  "sampleTexts =
     [(''null'', JNull), (''0'', JNum 0), (''{}'', JObj []),
      (''{\<newline>  \"a\": 1\<newline>}'', JObj [(''a'', JNum 1)]),
      (''{\"a\":1}'', JObj [(''a'', JNum 1)])]"

definition sampleParse :: "string \<Rightarrow> js_error + json" where
  "sampleParse t =
     (case map_of sampleTexts t of
        Some v \<Rightarrow> Inr v
      | None \<Rightarrow> Inl (SyntaxError ''Unexpected token in JSON''))"

definition sampleStringify :: "json \<Rightarrow> string" where
  "sampleStringify v =
     (case map_of (map (\<lambda>tv. (snd tv, fst tv)) sampleTexts) v of
        Some t \<Rightarrow> t
      | None \<Rightarrow> ''{}'')"

definition sampleRepair :: "string \<Rightarrow> js_error + string" where
  "sampleRepair t =
     (if t = ''{a:1}'' then Inr ''{\"a\":1}''
      else Inl (Error ''Unexpected end of json string''))"

definition sampleEnv :: env where
  "sampleEnv =
     \<lparr> JSON_parse = sampleParse, JSON_stringify = sampleStringify,
       jsonrepair = sampleRepair, Date_now = 1730000000123,
       io_fault = (\<lambda>op p. None) \<rparr>"

text \<open>The same environment on a disk that refuses every write to a document file.\<close>

definition readOnlyEnv :: env where
  "readOnlyEnv =
     sampleEnv \<lparr> io_fault :=
       (\<lambda>op p. if op = WriteFileOp \<and> endsWith (basename p) ''.json''
               then Some (SystemError ''EACCES'' ''EACCES: permission denied'') else None) \<rparr>"

definition users :: collection where
  "users = \<lparr> rootDbPath = [''db''], collectionName = ''users'' \<rparr>"

definition emptyUsers :: fs where
  "emptyUsers = [([''db''], Dir), ([''db'', ''users''], Dir)]"

text \<open>The collection after \<open>set('item002', null)\<close>.\<close>

definition storedNull :: fs where
  "storedNull = emptyUsers @ [([''db'', ''users'', ''item002.json''], File ''null'')]"

text \<open>The empty collection after a backup of \<open>null\<close> for the identifier \<open>item002\<close>.\<close>

definition backedUp :: fs where
  "backedUp = emptyUsers @ [([''db'', ''.backup''], Dir), ([''db'', ''.backup'', ''users''], Dir),
     ([''db'', ''.backup'', ''users'', ''item002_1730000000123.json.bak''], File ''null'')]"

text \<open>The collection after \<open>set('a', 0)\<close>, and a query with a \<open>match\<close> block at top level.\<close>

definition zeroDoc :: fs where
  "zeroDoc = emptyUsers @ [([''db'', ''users'', ''a.json''], File ''0'')]"

definition twoDocs :: fs where
  "twoDocs = zeroDoc @ [([''db'', ''users'', ''b.json''], File ''{\<newline>  \"a\": 1\<newline>}'')]"

definition topLevelMatch :: query where
  "topLevelMatch =
     \<lparr> search = None, others = [(''match'', JObj [(''category'', JStr ''Books'')])] \<rparr>"

section \<open>Evaluation of the sample environment\<close>

lemma sampleEnv_simps:
  "JSON_parse sampleEnv = sampleParse" "JSON_stringify sampleEnv = sampleStringify"
  "jsonrepair sampleEnv = sampleRepair" "Date_now sampleEnv = 1730000000123"
  "io_fault sampleEnv op p = None"
  by (simp_all add: sampleEnv_def)


lemma writeFile_Some: "writeFile env fs p (Some t) = writeText env fs p t"
  by (simp add: writeFile_def)

section \<open>Decoding: \<open>tryRepairAndParseJson\<close>\<close>

text \<open>
  Claim C7. When the direct parse of a text fails with a syntax error and the repair pass,
  or the parse of the repaired text, fails as well, decoding raises the error of the first
  parse, not the error of the repair.
\<close>

theorem decode_keeps_original_parse_error:
  assumes first: "JSON_parse env t = Inl (SyntaxError m)"
    and second: "(\<exists>repairError. jsonrepair env t = Inl repairError) \<or>
       (\<exists>t' repairError. jsonrepair env t = Inr t' \<and> JSON_parse env t' = Inl repairError)"
  shows "tryRepairAndParseJson env t = Inl (SyntaxError m)"
  using second
proof
  assume "\<exists>repairError. jsonrepair env t = Inl repairError"
  then obtain re where "jsonrepair env t = Inl re" ..
  with first show ?thesis by (simp add: tryRepairAndParseJson_def)
next
  assume "\<exists>t' repairError. jsonrepair env t = Inr t' \<and> JSON_parse env t' = Inl repairError"
  then obtain t' re where "jsonrepair env t = Inr t'" "JSON_parse env t' = Inl re" by blast
  with first show ?thesis by (simp add: tryRepairAndParseJson_def)
qed

theorem decode_keeps_original_parse_error_witness:
  "JSON_parse sampleEnv [] = Inl (SyntaxError ''Unexpected token in JSON'')
   \<and> jsonrepair sampleEnv [] = Inl (Error ''Unexpected end of json string'')
   \<and> tryRepairAndParseJson sampleEnv [] = Inl (SyntaxError ''Unexpected token in JSON'')"
proof -
  have p: "JSON_parse sampleEnv [] = Inl (SyntaxError ''Unexpected token in JSON'')"
    by (simp add: sampleEnv_simps sampleParse_def sampleTexts_def)
  have r: "jsonrepair sampleEnv [] = Inl (Error ''Unexpected end of json string'')"
    by (simp add: sampleEnv_simps sampleRepair_def)
  from r have "(\<exists>repairError. jsonrepair sampleEnv [] = Inl repairError) \<or>
       (\<exists>t' repairError. jsonrepair sampleEnv [] = Inr t' \<and> JSON_parse sampleEnv t' = Inl repairError)"
    by blast
  from decode_keeps_original_parse_error [OF p this] p r show ?thesis by simp
qed

section \<open>Invalid identifiers\<close>






section \<open>File system facts\<close>

lemma lookupFrom_snoc:
  "lookupFrom fs cur (xs @ [f]) =
     (case lookupFrom fs cur xs of
        Inl e \<Rightarrow> Inl e
      | Inr (File t) \<Rightarrow> Inl ENOTDIR
      | Inr Dir \<Rightarrow> (case nodeAt fs (cur @ xs @ [f]) of None \<Rightarrow> Inl ENOENT | Some n \<Rightarrow> Inr n))"
proof (induction xs arbitrary: cur)
  case Nil
  show ?case by (simp split: option.splits node.splits)
next
  case (Cons x xs)
  show ?case using Cons.IH [of "cur @ [x]"]
    by (simp split: option.splits node.splits)
qed

lemma nodeAt_update_other:
  "q \<noteq> p \<Longrightarrow> nodeAt (AList.update p v fs) q = nodeAt fs q"
  by (simp add: nodeAt_def update_conv')

lemma nodeAt_delete_other:
  "q \<noteq> p \<Longrightarrow> nodeAt (AList.delete p fs) q = nodeAt fs q"
  by (simp add: nodeAt_def delete_conv')

lemma lookupFrom_shorter:
  assumes "\<And>q. length q < length p \<Longrightarrow> nodeAt fs' q = nodeAt fs q"
  shows "length (cur @ xs) < length p \<Longrightarrow> lookupFrom fs' cur xs = lookupFrom fs cur xs"
proof (induction xs arbitrary: cur)
  case Nil
  then show ?case using assms [of cur] by simp
next
  case (Cons x xs)
  have "nodeAt fs' cur = nodeAt fs cur" using assms [of cur] Cons.prems by simp
  moreover have "lookupFrom fs' (cur @ [x]) xs = lookupFrom fs (cur @ [x]) xs"
    using Cons.IH [of "cur @ [x]"] Cons.prems by simp
  ultimately show ?case by (simp split: option.splits node.splits)
qed

lemma lookupPath_parent_update:
  "p \<noteq> [] \<Longrightarrow> lookupPath (AList.update p v fs) (butlast p) = lookupPath fs (butlast p)"
  unfolding lookupPath_def
  by (rule lookupFrom_shorter [where p = p]) (auto intro!: nodeAt_update_other)

lemma lookupPath_parent_delete:
  "p \<noteq> [] \<Longrightarrow> lookupPath (AList.delete p fs) (butlast p) = lookupPath fs (butlast p)"
  unfolding lookupPath_def
  by (rule lookupFrom_shorter [where p = p]) (auto intro!: nodeAt_delete_other)

lemma lookupPath_snoc:
  "lookupPath fs (d @ [f]) =
     (case lookupPath fs d of
        Inl e \<Rightarrow> Inl e
      | Inr (File t) \<Rightarrow> Inl ENOTDIR
      | Inr Dir \<Rightarrow> (case map_of fs (d @ [f]) of None \<Rightarrow> Inl ENOENT | Some n \<Rightarrow> Inr n))"
  unfolding lookupPath_def by (simp add: lookupFrom_snoc nodeAt_def split: sum.splits node.splits)

lemma writeText_then_lookup:
  assumes "writeText env fs p t = Inr fs'"
  shows "lookupPath fs' p = Inr (File t)"
proof -
  from assms have ne: "p \<noteq> []" and par: "lookupPath fs (butlast p) = Inr Dir"
    and fs': "fs' = AList.update p (File t) fs"
    by (auto simp: writeText_def split: option.splits if_splits sum.splits node.splits)
  have "lookupPath fs' (butlast p @ [last p]) = Inr (File t)"
    unfolding lookupPath_snoc using ne par fs'
    by (simp add: lookupPath_parent_update update_conv')
  with ne show ?thesis by simp
qed

lemma unlink_then_absent:
  assumes "unlink env fs p = Inr fs'"
  shows "lookupPath fs' p = Inl ENOENT"
proof -
  from assms obtain t where look: "lookupPath fs p = Inr (File t)" and fs': "fs' = AList.delete p fs"
    by (auto simp: unlink_def split: option.splits sum.splits node.splits)
  have ne: "p \<noteq> []" using look by (auto simp: lookupPath_def nodeAt_def)
  from look have "lookupPath fs (butlast p @ [last p]) = Inr (File t)" using ne by simp
  then have par: "lookupPath fs (butlast p) = Inr Dir"
    unfolding lookupPath_snoc by (auto split: sum.splits node.splits)
  have "lookupPath fs' (butlast p @ [last p]) = Inl ENOENT"
    unfolding lookupPath_snoc using ne par fs'
    by (simp add: lookupPath_parent_delete delete_conv')
  with ne show ?thesis by simp
qed


section \<open>Valid identifiers\<close>

lemma getDocPath_Inr:
  "getDocPath c docId = Inr p \<longleftrightarrow>
     (\<exists>s. docId = StringId s \<and> trim s \<noteq> [] \<and> \<not> includesStr (sanitizeDocId s) ''..''
        \<and> length (sanitizeDocId s) \<le> 200
        \<and> p = collectionPath c @ [sanitizeDocId s @ ''.json''])"
  by (cases docId) (auto simp: getDocPath_def Let_def)

lemma sanitize_item002: "sanitizeDocId ''item002'' = ''item002''"
  by (simp add: sanitizeDocId_def replaceAll_def isSeparator_def isReserved_def)

lemma getDocPath_item002:
  "getDocPath users (StringId ''item002'') = Inr [''db'', ''users'', ''item002.json'']"
  by (simp add: getDocPath_def sanitize_item002 trim_def isWhitespace_def users_def
      collectionPath_def)

section \<open>Deleting an absent document\<close>

lemma del_doc_on_absent:
  assumes "getDocPath c docId = Inr p" and "io_fault env UnlinkOp p = None"
    and "lookupPath fs p = Inl ENOENT"
  shows "del_doc c env fs docId = (Inr (NotFound (idText docId)), fs)"
  using assms by (simp add: del_doc_def unlink_def ENOENT_def)

text \<open>
  Claim C8. For a valid identifier whose document is absent, \<open>del\<close> returns the structured
  not-found result instead of raising, and any number of repetitions returns not-found
  every time and leaves the file system as it was.
\<close>

theorem del_absent_not_found:
  assumes "getDocPath c docId = Inr p" and "io_fault env UnlinkOp p = None"
    and "lookupPath fs p = Inl ENOENT"
  shows "del_repeat c env fs docId n = (replicate n (Inr (NotFound (idText docId))), fs)"
proof (induction n)
  case 0
  show ?case by simp
next
  case (Suc n)
  show ?case using del_doc_on_absent [OF assms] Suc.IH by simp
qed

theorem del_absent_not_found_witness:
  "getDocPath users (StringId ''item002'') = Inr [''db'', ''users'', ''item002.json'']
   \<and> io_fault sampleEnv UnlinkOp [''db'', ''users'', ''item002.json''] = None
   \<and> lookupPath emptyUsers [''db'', ''users'', ''item002.json''] = Inl ENOENT
   \<and> del_repeat users sampleEnv emptyUsers (StringId ''item002'') 3
       = ([Inr (NotFound ''item002''), Inr (NotFound ''item002''), Inr (NotFound ''item002'')],
          emptyUsers)"
proof -
  have f: "io_fault sampleEnv UnlinkOp [''db'', ''users'', ''item002.json''] = None"
    by (simp add: sampleEnv_simps)
  have a: "lookupPath emptyUsers [''db'', ''users'', ''item002.json''] = Inl ENOENT"
    by (simp add: lookupPath_def nodeAt_def emptyUsers_def)
  from del_absent_not_found [OF getDocPath_item002 f a, of 3] getDocPath_item002 f a
  show ?thesis by (simp add: numeral_3_eq_3)
qed

text \<open>
  Once \<open>del\<close> has removed a document, the document is absent: every further \<open>del\<close> on the
  same identifier returns not-found.
\<close>

lemma del_after_delete:
  assumes valid: "getDocPath c docId = Inr p" and ok: "io_fault env UnlinkOp p = None"
    and deleted: "del_doc c env fs docId = (Inr (Deleted i), fs')"
  shows "del_repeat c env fs' docId n = (replicate n (Inr (NotFound (idText docId))), fs')"
proof -
  have "unlink env fs p = Inr fs'"
  proof (cases "unlink env fs p")
    case (Inl error)
    with deleted valid show ?thesis by (simp add: del_doc_def split: if_splits)
  next
    case (Inr fs2)
    with deleted valid show ?thesis by (simp add: del_doc_def)
  qed
  then have absent: "lookupPath fs' p = Inl ENOENT" by (rule unlink_then_absent)
  show ?thesis
  proof (induction n)
    case 0
    show ?case by simp
  next
    case (Suc n)
    show ?case using del_doc_on_absent [OF valid ok absent] Suc.IH by simp
  qed
qed

section \<open>A stored null\<close>

text \<open>
  Claim C9, amended: after \<open>set(id, null)\<close> has succeeded, \<open>get(id)\<close> returns \<open>null\<close>, which is
  also what \<open>get(id)\<close> returns on a file system \<open>fs0\<close> that has no file for the identifier,
  so the two cases cannot be told apart through \<open>get\<close>. They can through \<open>del\<close>: it removes
  the stored \<open>null\<close> and reports success, and it reports not-found for the absent document.
\<close>

theorem set_null_then_get_null:
  assumes set: "set_doc c env fs docId (Json JNull) = (Inr r, fs')"
    and roundtrip: "JSON_parse env (JSON_stringify env JNull) = Inr JNull"
    and valid: "getDocPath c docId = Inr p"
    and readable: "io_fault env ReadFileOp p = None"
    and absent: "lookupPath fs0 p = Inl ENOENT"
  shows "get_doc c env fs' docId = (Inr JNull, fs')
         \<and> get_doc c env fs0 docId = (Inr JNull, fs0)
         \<and> (io_fault env UnlinkOp p = None \<longrightarrow>
               del_doc c env fs' docId = (Inr (Deleted (idText docId)), AList.delete p fs')
               \<and> del_doc c env fs0 docId = (Inr (NotFound (idText docId)), fs0))"
proof -
  have "writeText env fs p (JSON_stringify env JNull) = Inr fs'"
  proof (cases "writeText env fs p (JSON_stringify env JNull)")
    case (Inr fs2)
    with set valid show ?thesis by (simp add: set_doc_def writeFile_Some)
  next
    case failed: (Inl writeError)
    obtain res fs2 where b: "backupDocument env fs (rootDbPath c) (collectionName c)
        (idText docId) (Some (JSON_stringify env JNull)) = (res, fs2)"
      by (cases "backupDocument env fs (rootDbPath c) (collectionName c)
        (idText docId) (Some (JSON_stringify env JNull))")
    from set valid failed b show ?thesis
      by (cases res) (simp_all add: set_doc_def writeFile_Some)
  qed
  then have look: "lookupPath fs' p = Inr (File (JSON_stringify env JNull))"
    by (rule writeText_then_lookup)
  then have "readFile env fs' p = Inr (JSON_stringify env JNull)"
    using readable by (simp add: readFile_def)
  then have stored: "get_doc c env fs' docId = (Inr JNull, fs')"
    using valid roundtrip by (simp add: get_doc_def tryRepairAndParseJson_def)
  have "readFile env fs0 p = Inl ENOENT"
    using readable absent by (simp add: readFile_def)
  then have missing: "get_doc c env fs0 docId = (Inr JNull, fs0)"
    using valid by (simp add: get_doc_def ENOENT_def)
  have "del_doc c env fs' docId = (Inr (Deleted (idText docId)), AList.delete p fs')"
    and "del_doc c env fs0 docId = (Inr (NotFound (idText docId)), fs0)"
    if ok: "io_fault env UnlinkOp p = None"
  proof -
    show "del_doc c env fs' docId = (Inr (Deleted (idText docId)), AList.delete p fs')"
      using valid ok look by (simp add: del_doc_def unlink_def)
    show "del_doc c env fs0 docId = (Inr (NotFound (idText docId)), fs0)"
      by (rule del_doc_on_absent [OF valid ok absent])
  qed
  with stored missing show ?thesis by blast
qed

lemma sampleStringify_null: "sampleStringify JNull = ''null''"
  by (simp add: sampleStringify_def sampleTexts_def)

lemma sampleParse_null: "sampleParse ''null'' = Inr JNull"
  by (simp add: sampleParse_def sampleTexts_def)

lemma lookup_users_dir: "lookupPath emptyUsers [''db'', ''users''] = Inr Dir"
  by (simp add: lookupPath_def nodeAt_def emptyUsers_def)

lemma write_item002:
  "writeText sampleEnv emptyUsers [''db'', ''users'', ''item002.json''] t
     = Inr (emptyUsers @ [([''db'', ''users'', ''item002.json''], File t)])"
  by (simp add: writeText_def sampleEnv_simps lookup_users_dir) (simp add: emptyUsers_def)

lemma set_null_item002:
  "set_doc users sampleEnv emptyUsers (StringId ''item002'') (Json JNull)
     = (Inr (SetOk ''item002'' ''item002.json''), storedNull)"
  by (simp add: set_doc_def getDocPath_item002 sampleEnv_simps(2) sampleStringify_null
      writeFile_Some write_item002 basename_def storedNull_def)

lemma get_storedNull:
  "get_doc users sampleEnv storedNull (StringId ''item002'') = (Inr JNull, storedNull)"
  by (simp add: get_doc_def getDocPath_item002 readFile_def sampleEnv_simps lookupPath_def
      nodeAt_def storedNull_def emptyUsers_def tryRepairAndParseJson_def sampleParse_null)

lemma absent_item002:
  "lookupPath emptyUsers [''db'', ''users'', ''item002.json''] = Inl ENOENT"
  by (simp add: lookupPath_def nodeAt_def emptyUsers_def)

lemma get_absent_item002:
  "get_doc users sampleEnv emptyUsers (StringId ''item002'') = (Inr JNull, emptyUsers)"
  by (simp add: get_doc_def getDocPath_item002 readFile_def sampleEnv_simps absent_item002
      ENOENT_def)

lemma del_storedNull:
  "del_doc users sampleEnv storedNull (StringId ''item002'')
     = (Inr (Deleted ''item002''), emptyUsers)"
  by (simp add: del_doc_def getDocPath_item002 unlink_def sampleEnv_simps lookupPath_def
      nodeAt_def storedNull_def emptyUsers_def AList.delete_eq)

lemma del_absent_item002:
  "del_doc users sampleEnv emptyUsers (StringId ''item002'')
     = (Inr (NotFound ''item002''), emptyUsers)"
  by (simp add: del_doc_def getDocPath_item002 unlink_def sampleEnv_simps absent_item002
      ENOENT_def)

text \<open>
  Claim C9, as stated: after \<open>set(id, null)\<close>, \<open>get(id)\<close> returns \<open>null\<close> as it does for an
  absent document, so a caller of the public interface cannot distinguish a stored \<open>null\<close>
  from an absent document. \<open>get\<close> does return \<open>null\<close> in both states, and \<open>del\<close>, which is
  part of the same interface, answers differently in them.
\<close>

theorem stored_null_distinguished_by_del_counterexample:
  "set_doc users sampleEnv emptyUsers (StringId ''item002'') (Json JNull)
     = (Inr (SetOk ''item002'' ''item002.json''), storedNull)
   \<and> get_doc users sampleEnv storedNull (StringId ''item002'') = (Inr JNull, storedNull)
   \<and> get_doc users sampleEnv emptyUsers (StringId ''item002'') = (Inr JNull, emptyUsers)
   \<and> del_doc users sampleEnv storedNull (StringId ''item002'')
       = (Inr (Deleted ''item002''), emptyUsers)
   \<and> del_doc users sampleEnv emptyUsers (StringId ''item002'')
       = (Inr (NotFound ''item002''), emptyUsers)
   \<and> Deleted ''item002'' \<noteq> NotFound ''item002''"
  by (simp add: set_null_item002 get_storedNull get_absent_item002 del_storedNull
      del_absent_item002)

theorem set_null_then_get_null_witness:
  "set_doc users sampleEnv emptyUsers (StringId ''item002'') (Json JNull)
     = (Inr (SetOk ''item002'' ''item002.json''), storedNull)
   \<and> JSON_parse sampleEnv (JSON_stringify sampleEnv JNull) = Inr JNull
   \<and> getDocPath users (StringId ''item002'') = Inr [''db'', ''users'', ''item002.json'']
   \<and> io_fault sampleEnv ReadFileOp [''db'', ''users'', ''item002.json''] = None
   \<and> io_fault sampleEnv UnlinkOp [''db'', ''users'', ''item002.json''] = None
   \<and> lookupPath emptyUsers [''db'', ''users'', ''item002.json''] = Inl ENOENT
   \<and> get_doc users sampleEnv storedNull (StringId ''item002'') = (Inr JNull, storedNull)
   \<and> get_doc users sampleEnv emptyUsers (StringId ''item002'') = (Inr JNull, emptyUsers)
   \<and> del_doc users sampleEnv storedNull (StringId ''item002'')
       = (Inr (Deleted ''item002''),
          AList.delete [''db'', ''users'', ''item002.json''] storedNull)
   \<and> del_doc users sampleEnv emptyUsers (StringId ''item002'')
       = (Inr (NotFound ''item002''), emptyUsers)"
proof -
  have r: "JSON_parse sampleEnv (JSON_stringify sampleEnv JNull) = Inr JNull"
    by (simp add: sampleEnv_simps sampleStringify_null sampleParse_null)
  have f: "io_fault sampleEnv ReadFileOp [''db'', ''users'', ''item002.json''] = None"
    by (simp add: sampleEnv_simps)
  have u: "io_fault sampleEnv UnlinkOp [''db'', ''users'', ''item002.json''] = None"
    by (simp add: sampleEnv_simps)
  note t = set_null_then_get_null [OF set_null_item002 r getDocPath_item002 f absent_item002]
  from t have g: "get_doc users sampleEnv storedNull (StringId ''item002'')
      = (Inr JNull, storedNull)"
    and g0: "get_doc users sampleEnv emptyUsers (StringId ''item002'') = (Inr JNull, emptyUsers)"
    by blast+
  from t u have d: "del_doc users sampleEnv storedNull (StringId ''item002'')
       = (Inr (Deleted ''item002''),
          AList.delete [''db'', ''users'', ''item002.json''] storedNull)"
    and d0: "del_doc users sampleEnv emptyUsers (StringId ''item002'')
       = (Inr (NotFound ''item002''), emptyUsers)"
    by simp_all
  from set_null_item002 r getDocPath_item002 f u absent_item002 g g0 d d0
  show ?thesis by blast
qed

section \<open>Backup when the write fails\<close>

lemma startsWith_append: "startsWith (n @ ys) n"
  by (induction n) simp_all

lemma includesStr_prefix: "includesStr (n @ ys) n"
proof (cases "n @ ys")
  case Nil
  then show ?thesis by simp
next
  case (Cons c cs)
  have "startsWith (n @ ys) n" by (rule startsWith_append)
  then have "startsWith (c # cs) n" unfolding Cons .
  then have "includesStr (c # cs) n" by (simp only: includesStr.simps simp_thms)
  then show ?thesis unfolding Cons .
qed

lemma includesStr_inside: "includesStr (xs @ n @ ys) n"
proof (induction xs)
  case Nil
  show ?case using includesStr_prefix [of n ys] by (simp only: append_Nil)
next
  case (Cons x xs)
  then show ?case by (simp only: append_Cons includesStr.simps simp_thms)
qed


lemma backupDocument_ok:
  assumes "backupDocument env fs rootPath colName docId (Some t) = (Inr bp, fs')"
  shows "bp = rootPath @ [''.backup'', colName,
               sanitizeDocId docId @ ''_'' @ decimal (Date_now env) @ ''.json.bak'']
         \<and> lookupPath fs' bp = Inr (File t)"
proof -
  let ?dir = "rootPath @ [''.backup'', colName]"
  let ?file = "?dir @ [backupFileName docId (Date_now env)]"
  obtain r fs1 where e: "ensureDirExists env fs ?dir = (r, fs1)"
    by (cases "ensureDirExists env fs ?dir")
  show ?thesis
  proof (cases r)
    case (Inl err)
    with assms e show ?thesis by (simp add: backupDocument_def)
  next
    case dirOk: (Inr u)
    show ?thesis
    proof (cases "writeText env fs1 ?file t")
      case (Inl err)
      with assms e dirOk show ?thesis by (simp add: backupDocument_def writeFile_Some)
    next
      case (Inr fs2)
      with assms e dirOk have "bp = ?file" and "fs' = fs2"
        by (simp_all add: backupDocument_def writeFile_Some)
      with writeText_then_lookup [OF Inr] show ?thesis by (simp add: backupFileName_def)
    qed
  qed
qed

text \<open>
  Claim C4. For a valid identifier and a serializable value, when the write of the
  document fails, \<open>set\<close> hands the serialized text to \<open>backupDocument\<close>. If the backup fails
  too, \<open>set\<close> raises an error whose message names the write error and the backup error. If
  the backup succeeds, \<open>set\<close> raises an error saying the data was backed up, and the text
  is in the file \<open><sanitizedId>_<millis>.json.bak\<close> under \<open>rootDbPath/.backup/<collection>\<close>.
\<close>

theorem set_write_failure_backs_up:
  assumes valid: "getDocPath c docId = Inr p"
    and failed: "writeFile env fs p (Some (JSON_stringify env v)) = Inl writeError"
  shows "(case backupDocument env fs (rootDbPath c) (collectionName c) (idText docId)
                 (Some (JSON_stringify env v)) of
            (Inl backupError, fs') \<Rightarrow>
               set_doc c env fs docId (Json v)
                 = (Inl (Error (msgSetAndBackupFailed (idText docId) writeError backupError)), fs')
               \<and> includesStr (msgSetAndBackupFailed (idText docId) writeError backupError)
                     (message writeError)
               \<and> includesStr (msgSetAndBackupFailed (idText docId) writeError backupError)
                     (message backupError)
          | (Inr backupPath, fs') \<Rightarrow>
               set_doc c env fs docId (Json v)
                 = (Inl (Error (msgSetBackedUp (idText docId) writeError)), fs')
               \<and> includesStr (msgSetBackedUp (idText docId) writeError) ''Data was backed up.''
               \<and> backupPath = rootDbPath c @ [''.backup'', collectionName c,
                    sanitizeDocId (idText docId) @ ''_'' @ decimal (Date_now env) @ ''.json.bak'']
               \<and> lookupPath fs' backupPath = Inr (File (JSON_stringify env v)))"
proof (cases "backupDocument env fs (rootDbPath c) (collectionName c) (idText docId)
                 (Some (JSON_stringify env v))")
  case (Pair res fs')
  show ?thesis
  proof (cases res)
    case (Inl backupError)
    have b: "backupDocument env fs (rootDbPath c) (collectionName c) (idText docId)
                 (Some (JSON_stringify env v)) = (Inl backupError, fs')"
      using Pair Inl by simp
    have inc1: "includesStr (msgSetAndBackupFailed (idText docId) writeError backupError)
            (message writeError)"
      unfolding msgSetAndBackupFailed_def
      using includesStr_inside [of "''Failed to set document '' @ quoted (idText docId)
              @ '' and also failed to backup: ''" "message writeError"
              "''. Backup failure: '' @ message backupError"]
      by (simp only: append_assoc)
    have inc2: "includesStr (msgSetAndBackupFailed (idText docId) writeError backupError)
            (message backupError)"
      unfolding msgSetAndBackupFailed_def
      using includesStr_inside [of "''Failed to set document '' @ quoted (idText docId)
              @ '' and also failed to backup: '' @ message writeError @ ''. Backup failure: ''"
              "message backupError" "[]"]
      by (simp only: append_assoc append_Nil2)
    have s: "set_doc c env fs docId (Json v)
                 = (Inl (Error (msgSetAndBackupFailed (idText docId) writeError backupError)), fs')"
      using b valid failed by (simp add: set_doc_def)
    show ?thesis unfolding b prod.case sum.case using s inc1 inc2 by blast
  next
    case (Inr backupPath)
    have b: "backupDocument env fs (rootDbPath c) (collectionName c) (idText docId)
                 (Some (JSON_stringify env v)) = (Inr backupPath, fs')"
      using Pair Inr by simp
    have lit: "''. Data was backed up.'' = ''. '' @ ''Data was backed up.''"
      by simp
    have inc: "includesStr (msgSetBackedUp (idText docId) writeError) ''Data was backed up.''"
      unfolding msgSetBackedUp_def lit
      using includesStr_inside [of "''Failed to set document '' @ quoted (idText docId)
              @ '': '' @ message writeError @ ''. ''" "''Data was backed up.''" "[]"]
      by (simp only: append_assoc append_Nil2)
    from backupDocument_ok [OF b]
    have bp: "backupPath = rootDbPath c @ [''.backup'', collectionName c,
                    sanitizeDocId (idText docId) @ ''_'' @ decimal (Date_now env) @ ''.json.bak'']"
      and look: "lookupPath fs' backupPath = Inr (File (JSON_stringify env v))"
      by blast+
    have s: "set_doc c env fs docId (Json v)
                 = (Inl (Error (msgSetBackedUp (idText docId) writeError)), fs')"
      using b valid failed by (simp add: set_doc_def)
    show ?thesis unfolding b prod.case sum.case using s inc bp look by blast
  qed
qed

lemma endsWith_append: "endsWith (s @ suf) suf"
  by (simp add: endsWith_def)

lemma readOnly_refuses:
  "io_fault readOnlyEnv WriteFileOp [''db'', ''users'', ''item002.json'']
     = Some (SystemError ''EACCES'' ''EACCES: permission denied'')"
  using endsWith_append [of "''item002''" "''.json''"]
  by (simp add: readOnlyEnv_def basename_def)

lemma readOnly_mkdir: "io_fault readOnlyEnv MkdirOp p = None"
  by (simp add: readOnlyEnv_def)

lemma readOnly_builtins:
  "JSON_stringify readOnlyEnv = sampleStringify" "Date_now readOnlyEnv = 1730000000123"
  by (simp_all add: readOnlyEnv_def sampleEnv_def)

lemma backupFileName_item002:
  "backupFileName ''item002'' 1730000000123 = ''item002_1730000000123.json.bak''"
  by (simp add: backupFileName_def sanitize_item002 decimal.simps digit_def)

lemma readOnly_allows_backup:
  "io_fault readOnlyEnv WriteFileOp
     [''db'', ''.backup'', ''users'', ''item002_1730000000123.json.bak''] = None"
  by (simp add: readOnlyEnv_def basename_def endsWith_def)

lemma ensure_backup_dir:
  "ensureDirExists readOnlyEnv emptyUsers [''db'', ''.backup'', ''users'']
     = (Inr (), emptyUsers @ [([''db'', ''.backup''], Dir), ([''db'', ''.backup'', ''users''], Dir)])"
  by (simp add: ensureDirExists_def mkdir_def readOnly_mkdir emptyUsers_def)

lemma write_backup:
  "writeText readOnlyEnv
     (emptyUsers @ [([''db'', ''.backup''], Dir), ([''db'', ''.backup'', ''users''], Dir)])
     [''db'', ''.backup'', ''users'', ''item002_1730000000123.json.bak''] ''null''
     = Inr backedUp"
  by (simp add: writeText_def readOnly_allows_backup lookupPath_def nodeAt_def emptyUsers_def
      backedUp_def)

lemma backup_item002:
  "backupDocument readOnlyEnv emptyUsers [''db''] ''users'' ''item002'' (Some ''null'')
     = (Inr [''db'', ''.backup'', ''users'', ''item002_1730000000123.json.bak''], backedUp)"
  by (simp add: backupDocument_def Let_def ensure_backup_dir readOnly_builtins
      backupFileName_item002 writeFile_Some write_backup)

lemma write_refused:
  "writeText readOnlyEnv emptyUsers [''db'', ''users'', ''item002.json''] ''null''
     = Inl (SystemError ''EACCES'' ''EACCES: permission denied'')"
  by (simp add: writeText_def readOnly_refuses)

theorem set_write_failure_backs_up_witness:
  "getDocPath users (StringId ''item002'') = Inr [''db'', ''users'', ''item002.json'']
   \<and> writeFile readOnlyEnv emptyUsers [''db'', ''users'', ''item002.json'']
         (Some (JSON_stringify readOnlyEnv JNull))
       = Inl (SystemError ''EACCES'' ''EACCES: permission denied'')
   \<and> set_doc users readOnlyEnv emptyUsers (StringId ''item002'') (Json JNull)
       = (Inl (Error (msgSetBackedUp ''item002''
                 (SystemError ''EACCES'' ''EACCES: permission denied''))), backedUp)
   \<and> lookupPath backedUp [''db'', ''.backup'', ''users'', ''item002_1730000000123.json.bak'']
       = Inr (File ''null'')"
proof -
  have w: "writeFile readOnlyEnv emptyUsers [''db'', ''users'', ''item002.json'']
         (Some (JSON_stringify readOnlyEnv JNull))
       = Inl (SystemError ''EACCES'' ''EACCES: permission denied'')"
    by (simp add: writeFile_Some readOnly_builtins sampleStringify_null write_refused)
  have b: "backupDocument readOnlyEnv emptyUsers (rootDbPath users) (collectionName users)
             (idText (StringId ''item002'')) (Some (JSON_stringify readOnlyEnv JNull))
           = (Inr [''db'', ''.backup'', ''users'', ''item002_1730000000123.json.bak''], backedUp)"
    by (simp add: readOnly_builtins sampleStringify_null users_def backup_item002)
  from set_write_failure_backs_up [OF getDocPath_item002 w]
  have "set_doc users readOnlyEnv emptyUsers (StringId ''item002'') (Json JNull)
       = (Inl (Error (msgSetBackedUp ''item002''
                 (SystemError ''EACCES'' ''EACCES: permission denied''))), backedUp)
     \<and> lookupPath backedUp [''db'', ''.backup'', ''users'', ''item002_1730000000123.json.bak'']
       = Inr (File ''null'')"
    unfolding b prod.case sum.case
    by (simp add: readOnly_builtins sampleStringify_null users_def)
  with getDocPath_item002 w show ?thesis by blast
qed

section \<open>Sanitization and the document file name\<close>

lemma replaceAll_delete: "replaceAll cls [] s = filter (\<lambda>c. \<not> cls c) s"
  by (induction s) (simp_all add: replaceAll_def)

lemma replaceAll_single: "replaceAll cls [r] s = map (\<lambda>c. if cls c then r else c) s"
  by (induction s) (simp_all add: replaceAll_def)

lemma sanitizeDocId_map_filter:
  "sanitizeDocId rawId =
     filter (\<lambda>c. \<not> isReserved c) (map (\<lambda>c. if isSeparator c then CHR ''_'' else c) rawId)"
  by (simp add: sanitizeDocId_def replaceAll_delete replaceAll_single)

lemma sanitizeDocId_no_separator:
  assumes "\<forall>ch \<in> set rawId. \<not> isSeparator ch"
  shows "sanitizeDocId rawId = strip_spec rawId"
proof -
  from assms have "map (\<lambda>c. if isSeparator c then CHR ''_'' else c) rawId = rawId"
    by (induction rawId) simp_all
  moreover from assms have "filter (\<lambda>c. \<not> isReserved c) rawId = strip_spec rawId"
    unfolding strip_spec_def by (induction rawId) simp_all
  ultimately show ?thesis by (simp add: sanitizeDocId_map_filter)
qed

lemma basename_snoc: "basename (d @ [f]) = f"
  by (simp add: basename_def)

lemma set_doc_result:
  assumes "set_doc c env fs (StringId rawId) (Json v) = (Inr r, fs')"
  shows "r = SetOk rawId (sanitizeDocId rawId @ ''.json'')"
proof (cases "getDocPath c (StringId rawId)")
  case (Inl e)
  with assms show ?thesis by (simp add: set_doc_def)
next
  case valid: (Inr p)
  then have p: "p = collectionPath c @ [sanitizeDocId rawId @ ''.json'']"
    by (simp add: getDocPath_Inr)
  show ?thesis
  proof (cases "writeText env fs p (JSON_stringify env v)")
    case (Inr fs2)
    with assms valid have "r = SetOk rawId (basename p)"
      by (simp add: set_doc_def writeFile_Some)
    then show ?thesis unfolding p basename_snoc .
  next
    case failed: (Inl writeError)
    obtain res fs2 where b: "backupDocument env fs (rootDbPath c) (collectionName c) rawId
        (Some (JSON_stringify env v)) = (res, fs2)"
      by (cases "backupDocument env fs (rootDbPath c) (collectionName c) rawId
        (Some (JSON_stringify env v))")
    from assms valid failed b show ?thesis
      by (cases res) (simp_all add: set_doc_def writeFile_Some)
  qed
qed

text \<open>
  Claim C2, amended: sanitization replaces each separator (slash or backslash) by an underscore and
  removes the characters \<open>< > : " | ? *\<close>, so it agrees with plain stripping on every
  identifier without a separator; the traversal and length checks look at the sanitized
  identifier; and the file name \<open>set\<close> reports is the sanitized identifier followed by
  \<open>.json\<close>.
\<close>

theorem sanitize_replaces_separators:
  "sanitizeDocId rawId =
     filter (\<lambda>ch. \<not> isReserved ch) (map (\<lambda>ch. if isSeparator ch then CHR ''_'' else ch) rawId)
   \<and> ((\<forall>ch \<in> set rawId. \<not> isSeparator ch) \<longrightarrow> sanitizeDocId rawId = strip_spec rawId)
   \<and> (getDocPath c (StringId rawId) = Inr p \<longleftrightarrow>
        trim rawId \<noteq> [] \<and> \<not> includesStr (sanitizeDocId rawId) ''..''
        \<and> length (sanitizeDocId rawId) \<le> 200
        \<and> p = collectionPath c @ [sanitizeDocId rawId @ ''.json''])
   \<and> (set_doc c env fs (StringId rawId) (Json v) = (Inr r, fs') \<longrightarrow>
        r = SetOk rawId (sanitizeDocId rawId @ ''.json''))"
  using sanitizeDocId_map_filter [of rawId] sanitizeDocId_no_separator [of rawId]
    set_doc_result [of c env fs rawId v r fs']
  by (simp add: getDocPath_Inr)

lemma sanitize_a_b: "sanitizeDocId ''a/b'' = ''a_b''"
  by (simp add: sanitizeDocId_def replaceAll_def isSeparator_def isReserved_def)

lemma getDocPath_a_b:
  "getDocPath users (StringId ''a/b'') = Inr [''db'', ''users'', ''a_b.json'']"
  by (simp add: getDocPath_def sanitize_a_b trim_def isWhitespace_def users_def
      collectionPath_def)

lemma write_a_b:
  "writeText sampleEnv emptyUsers [''db'', ''users'', ''a_b.json''] t
     = Inr (emptyUsers @ [([''db'', ''users'', ''a_b.json''], File t)])"
  by (simp add: writeText_def sampleEnv_simps lookup_users_dir) (simp add: emptyUsers_def)

lemma set_a_b:
  "set_doc users sampleEnv emptyUsers (StringId ''a/b'') (Json JNull)
     = (Inr (SetOk ''a/b'' ''a_b.json''),
        emptyUsers @ [([''db'', ''users'', ''a_b.json''], File ''null'')])"
  by (simp add: set_doc_def getDocPath_a_b sampleEnv_simps(2) sampleStringify_null
      writeFile_Some write_a_b basename_def)

text \<open>
  Claim C2, as stated: the separators are stripped like the reserved characters, and the
  file name is the stripped identifier followed by \<open>.json\<close>. For the identifier \<open>a/b\<close>
  that would be \<open>ab.json\<close>; \<open>set\<close> reports and writes \<open>a_b.json\<close>.
\<close>

theorem strip_separators_counterexample:
  "strip_spec ''a/b'' @ ''.json'' = ''ab.json''
   \<and> set_doc users sampleEnv emptyUsers (StringId ''a/b'') (Json JNull)
       = (Inr (SetOk ''a/b'' ''a_b.json''),
          emptyUsers @ [([''db'', ''users'', ''a_b.json''], File ''null'')])"
  using set_a_b by (simp add: strip_spec_def isSeparator_def isReserved_def)

theorem sanitize_replaces_separators_witness:
  "list_all (\<lambda>ch. \<not> isSeparator ch) ''item:002''
   \<and> sanitizeDocId ''item:002'' = strip_spec ''item:002''
   \<and> set_doc users sampleEnv emptyUsers (StringId ''a/b'') (Json JNull)
       = (Inr (SetOk ''a/b'' ''a_b.json''),
          emptyUsers @ [([''db'', ''users'', ''a_b.json''], File ''null'')])
   \<and> SetOk ''a/b'' ''a_b.json'' = SetOk ''a/b'' (sanitizeDocId ''a/b'' @ ''.json'')"
proof -
  have h: "\<forall>ch \<in> set ''item:002''. \<not> isSeparator ch" by (simp add: isSeparator_def)
  from sanitize_replaces_separators [of "''item:002''"] h
  have "sanitizeDocId ''item:002'' = strip_spec ''item:002''" by blast
  moreover from sanitize_replaces_separators [of "''a/b''" users "[''db'', ''users'', ''a_b.json'']" sampleEnv emptyUsers JNull
      "SetOk ''a/b'' ''a_b.json''" "emptyUsers @ [([''db'', ''users'', ''a_b.json''], File ''null'')]"]
    set_a_b
  have "SetOk ''a/b'' ''a_b.json'' = SetOk ''a/b'' (sanitizeDocId ''a/b'' @ ''.json'')" by blast
  moreover have "list_all (\<lambda>ch. \<not> isSeparator ch) ''item:002''"
    by (simp add: isSeparator_def)
  ultimately show ?thesis using set_a_b by blast
qed

section \<open>Scanning without a search block\<close>

lemma scanLoop_without_search:
  assumes "search q = None"
  shows "scanLoop env fs colPath (Some q) files results
           = scanLoop env fs colPath None files results"
proof (induction files arbitrary: results)
  case Nil
  show ?case by simp
next
  case (Cons fileName rest)
  show ?case
  proof (cases "readDoc env fs (colPath @ [fileName])")
    case (Inl e)
    then show ?thesis using Cons.IH by simp
  next
    case (Inr docContent)
    then show ?thesis using Cons.IH assms by simp
  qed
qed

section \<open>Scanning and \<open>get\<close>\<close>

lemma scanLoop_no_query:
  "scanLoop env fs colPath None files results
     = Inr (results @ List.map_filter (keptEntry env fs colPath) files)"
proof (induction files arbitrary: results)
  case Nil
  show ?case by simp
next
  case (Cons fileName rest)
  show ?case
  proof (cases "readDoc env fs (colPath @ [fileName])")
    case (Inl e)
    then show ?thesis using Cons.IH by (simp add: keptEntry_def)
  next
    case (Inr docContent)
    then show ?thesis using Cons.IH by (simp add: keptEntry_def)
  qed
qed

lemma lookupFrom_Dir_start:
  "lookupFrom fs cur xs = Inr Dir \<Longrightarrow> nodeAt fs cur = Some Dir"
  by (cases xs) (auto split: option.splits node.splits)

lemma mkdirFrom_existing:
  "lookupFrom fs cur p = Inr Dir \<Longrightarrow> mkdirFrom fs cur p = Inr fs"
proof (induction p arbitrary: cur)
  case Nil
  show ?case by simp
next
  case (Cons s rest)
  from Cons.prems have next_dir: "lookupFrom fs (cur @ [s]) rest = Inr Dir"
    by (auto split: option.splits node.splits)
  then have "nodeAt fs (cur @ [s]) = Some Dir" by (rule lookupFrom_Dir_start)
  then have "map_of fs (cur @ [s]) = Some Dir" by (simp add: nodeAt_def)
  then show ?case using Cons.IH [OF next_dir] by simp
qed

lemma ensureDirExists_existing:
  assumes "lookupPath fs p = Inr Dir" and "io_fault env MkdirOp p = None"
  shows "ensureDirExists env fs p = (Inr (), fs)"
  using assms mkdirFrom_existing [of fs "[]" p]
  by (simp add: ensureDirExists_def mkdir_def lookupPath_def)

lemma map_filter_filter:
  assumes "\<And>x. \<not> P x \<Longrightarrow> f x = None"
  shows "List.map_filter f (filter P xs) = List.map_filter f xs"
  by (induction xs) (simp_all add: assms split: option.splits)

lemma map_filter_map: "List.map_filter f (map g ys) = List.map_filter (\<lambda>y. f (g y)) ys"
  by (induction ys) (simp_all split: option.splits)

lemma map_filter_cong_set:
  "(\<And>y. y \<in> set ys \<Longrightarrow> f y = h y) \<Longrightarrow> List.map_filter f ys = List.map_filter h ys"
  by (induction ys) (simp_all split: option.splits)

lemma keptByScan_valid:
  assumes "getDocPath c (StringId i) = Inr (collectionPath c @ [docFileName i])"
  shows "keptEntry env fs (collectionPath c) (docFileName i) = keptByScan c env fs i"
proof -
  have e: "endsWith (docFileName i) ''.json''"
    unfolding docFileName_def by (rule endsWith_append)
  show ?thesis
  proof (cases "readDoc env fs (collectionPath c @ [docFileName i])")
    case (Inl err)
    then show ?thesis using assms e
      by (simp add: keptEntry_def keptByScan_def get_doc_def readDoc_def [symmetric])
  next
    case (Inr v)
    then show ?thesis using assms e
      by (simp add: keptEntry_def keptByScan_def get_doc_def readDoc_def [symmetric])
  qed
qed

text \<open>
  Claim C6, amended: in a collection whose directory exists, a scan with no query returns,
  in directory order, the decoded content of every \<open>.json\<close> entry that can be read and
  decoded and is truthy. When the \<open>.json\<close> entries are the document files of the valid
  identifiers \<open>ids\<close>, that is the list of the values \<open>get\<close> returns for these identifiers,
  without the identifiers on which \<open>get\<close> raises and without those whose value is falsy
  (\<open>null\<close>, \<open>false\<close>, \<open>0\<close>, the empty text).
\<close>

theorem scan_all_is_get_on_present_ids:
  assumes dir: "lookupPath fs (collectionPath c) = Inr Dir"
    and mk: "io_fault env MkdirOp (collectionPath c) = None"
    and listing: "readdir env fs (collectionPath c) = Inr files"
    and present: "filter (\<lambda>f. endsWith f ''.json'') files = map docFileName ids"
    and valid: "\<forall>i \<in> set ids.
                  getDocPath c (StringId i) = Inr (collectionPath c @ [docFileName i])"
  shows "all_docs c env fs None
           = (Inr (List.map_filter (keptEntry env fs (collectionPath c)) files), fs)
         \<and> all_docs c env fs None = (Inr (List.map_filter (keptByScan c env fs) ids), fs)"
proof -
  let ?k = "keptEntry env fs (collectionPath c)"
  have scan: "all_docs c env fs None = (Inr (List.map_filter ?k files), fs)"
    using ensureDirExists_existing [OF dir mk] listing
    by (simp add: all_docs_def scanLoop_no_query)
  have "List.map_filter ?k files = List.map_filter ?k (filter (\<lambda>f. endsWith f ''.json'') files)"
    by (rule map_filter_filter [symmetric]) (simp add: keptEntry_def)
  also have "\<dots> = List.map_filter (\<lambda>i. ?k (docFileName i)) ids"
    unfolding present by (rule map_filter_map)
  also have "\<dots> = List.map_filter (keptByScan c env fs) ids"
    using valid by (intro map_filter_cong_set keptByScan_valid) blast
  finally show ?thesis using scan by simp
qed


section \<open>The sample collection with two documents\<close>

lemmas twoDocs_unfold = twoDocs_def zeroDoc_def emptyUsers_def

lemma users_path: "collectionPath users = [''db'', ''users'']"
  by (simp add: collectionPath_def users_def)

lemma lookup_twoDocs_dir: "lookupPath twoDocs [''db'', ''users''] = Inr Dir"
  by (simp add: lookupPath_def nodeAt_def twoDocs_unfold)

lemma readdir_twoDocs: "readdir sampleEnv twoDocs [''db'', ''users''] = Inr [''a.json'', ''b.json'']"
  by (simp add: readdir_def sampleEnv_simps lookup_twoDocs_dir) (simp add: twoDocs_unfold)

lemma readFile_twoDocs:
  "readFile sampleEnv twoDocs [''db'', ''users'', ''a.json''] = Inr ''0''"
  "readFile sampleEnv twoDocs [''db'', ''users'', ''b.json''] = Inr ''{\<newline>  \"a\": 1\<newline>}''"
  by (simp_all add: readFile_def sampleEnv_simps lookupPath_def nodeAt_def twoDocs_unfold)

lemma decode_samples:
  "tryRepairAndParseJson sampleEnv ''0'' = Inr (JNum 0)"
  "tryRepairAndParseJson sampleEnv ''{\<newline>  \"a\": 1\<newline>}'' = Inr (JObj [(''a'', JNum 1)])"
  by (simp_all add: tryRepairAndParseJson_def sampleEnv_simps sampleParse_def sampleTexts_def)

lemma readDoc_twoDocs:
  "readDoc sampleEnv twoDocs [''db'', ''users'', ''a.json''] = Inr (JNum 0)"
  "readDoc sampleEnv twoDocs [''db'', ''users'', ''b.json''] = Inr (JObj [(''a'', JNum 1)])"
  by (simp_all add: readDoc_def readFile_twoDocs decode_samples)

lemma sanitize_a: "sanitizeDocId ''a'' = ''a''" and sanitize_b: "sanitizeDocId ''b'' = ''b''"
  by (simp_all add: sanitizeDocId_def replaceAll_def isSeparator_def isReserved_def)

lemma getDocPath_a: "getDocPath users (StringId ''a'') = Inr [''db'', ''users'', ''a.json'']"
  by (simp add: getDocPath_def sanitize_a trim_def isWhitespace_def users_path)

lemma getDocPath_b: "getDocPath users (StringId ''b'') = Inr [''db'', ''users'', ''b.json'']"
  by (simp add: getDocPath_def sanitize_b trim_def isWhitespace_def users_path)

lemma get_twoDocs:
  "get_doc users sampleEnv twoDocs (StringId ''a'') = (Inr (JNum 0), twoDocs)"
  "get_doc users sampleEnv twoDocs (StringId ''b'') = (Inr (JObj [(''a'', JNum 1)]), twoDocs)"
  by (simp_all add: get_doc_def getDocPath_a getDocPath_b readFile_twoDocs decode_samples)

lemma endsWith_names: "endsWith ''a.json'' ''.json''" "endsWith ''b.json'' ''.json''"
  by (simp_all add: endsWith_def)

lemma all_twoDocs:
  "all_docs users sampleEnv twoDocs None = (Inr [JObj [(''a'', JNum 1)]], twoDocs)"
proof -
  have "ensureDirExists sampleEnv twoDocs [''db'', ''users''] = (Inr (), twoDocs)"
    by (rule ensureDirExists_existing [OF lookup_twoDocs_dir]) (simp add: sampleEnv_simps)
  then show ?thesis
    by (simp add: all_docs_def users_path readdir_twoDocs scanLoop_no_query keptEntry_def
        endsWith_names readDoc_twoDocs)
qed

text \<open>
  Claim C6, as stated: a scan with no query returns the same set of documents as \<open>get\<close> on
  every identifier that has a document. In the collection with the documents \<open>a\<close> (content
  \<open>0\<close>) and \<open>b\<close>, \<open>get\<close> returns \<open>0\<close> for \<open>a\<close>, and the scan leaves it out: \<open>!docContent\<close>
  skips a falsy document.
\<close>

theorem scan_skips_falsy_document_counterexample:
  "readdir sampleEnv twoDocs (collectionPath users) = Inr [''a.json'', ''b.json'']
   \<and> get_doc users sampleEnv twoDocs (StringId ''a'') = (Inr (JNum 0), twoDocs)
   \<and> get_doc users sampleEnv twoDocs (StringId ''b'') = (Inr (JObj [(''a'', JNum 1)]), twoDocs)
   \<and> all_docs users sampleEnv twoDocs None = (Inr [JObj [(''a'', JNum 1)]], twoDocs)
   \<and> JNum 0 \<notin> set [JObj [(''a'', JNum 1)]]"
  by (simp add: users_path readdir_twoDocs get_twoDocs all_twoDocs)

theorem scan_all_is_get_on_present_ids_witness:
  "lookupPath twoDocs (collectionPath users) = Inr Dir
   \<and> io_fault sampleEnv MkdirOp (collectionPath users) = None
   \<and> readdir sampleEnv twoDocs (collectionPath users) = Inr [''a.json'', ''b.json'']
   \<and> filter (\<lambda>f. endsWith f ''.json'') [''a.json'', ''b.json''] = map docFileName [''a'', ''b'']
   \<and> getDocPath users (StringId ''a'') = Inr (collectionPath users @ [docFileName ''a''])
   \<and> getDocPath users (StringId ''b'') = Inr (collectionPath users @ [docFileName ''b''])
   \<and> all_docs users sampleEnv twoDocs None
       = (Inr (List.map_filter (keptByScan users sampleEnv twoDocs) [''a'', ''b'']), twoDocs)
   \<and> List.map_filter (keptByScan users sampleEnv twoDocs) [''a'', ''b'']
       = [JObj [(''a'', JNum 1)]]"
proof -
  have dir: "lookupPath twoDocs (collectionPath users) = Inr Dir"
    by (simp add: users_path lookup_twoDocs_dir)
  have mk: "io_fault sampleEnv MkdirOp (collectionPath users) = None"
    by (simp add: sampleEnv_simps)
  have listing: "readdir sampleEnv twoDocs (collectionPath users) = Inr [''a.json'', ''b.json'']"
    by (simp add: users_path readdir_twoDocs)
  have present: "filter (\<lambda>f. endsWith f ''.json'') [''a.json'', ''b.json'']
                   = map docFileName [''a'', ''b'']"
    by (simp add: endsWith_names docFileName_def sanitize_a sanitize_b)
  have valid: "\<forall>i \<in> set [''a'', ''b''].
        getDocPath users (StringId i) = Inr (collectionPath users @ [docFileName i])"
    by (simp add: getDocPath_a getDocPath_b users_path docFileName_def sanitize_a sanitize_b)
  have kept: "List.map_filter (keptByScan users sampleEnv twoDocs) [''a'', ''b'']
       = [JObj [(''a'', JNum 1)]]"
    by (simp add: keptByScan_def get_twoDocs)
  from scan_all_is_get_on_present_ids [OF dir mk listing present valid]
  have "all_docs users sampleEnv twoDocs None
       = (Inr (List.map_filter (keptByScan users sampleEnv twoDocs) [''a'', ''b'']), twoDocs)"
    by blast
  moreover from valid
  have "getDocPath users (StringId ''a'') = Inr (collectionPath users @ [docFileName ''a''])"
    and "getDocPath users (StringId ''b'') = Inr (collectionPath users @ [docFileName ''b''])"
    by simp_all
  ultimately show ?thesis using dir mk listing present kept by blast
qed

text \<open>
  Claim C10. For a query object without a \<open>search\<close> property, whatever its other
  properties (a \<open>match\<close> or \<open>like\<close> block at top level, say), the scan returns what it
  returns with no query at all: the blocks are ignored, not rejected. In a collection
  whose directory exists that is every decoded document of the listing (every one the
  scan does not treat as absent), unfiltered.
\<close>

theorem query_without_search_is_ignored:
  assumes "search q = None"
  shows "all_docs c env fs (Some q) = all_docs c env fs None
         \<and> (lookupPath fs (collectionPath c) = Inr Dir
              \<and> io_fault env MkdirOp (collectionPath c) = None
              \<and> readdir env fs (collectionPath c) = Inr files
            \<longrightarrow> all_docs c env fs (Some q)
                  = (Inr (List.map_filter (keptEntry env fs (collectionPath c)) files), fs))"
proof -
  obtain r fs1 where e: "ensureDirExists env fs (collectionPath c) = (r, fs1)"
    by (cases "ensureDirExists env fs (collectionPath c)")
  have same: "all_docs c env fs (Some q) = all_docs c env fs None"
  proof (cases r)
    case (Inl error)
    with e show ?thesis by (simp add: all_docs_def)
  next
    case dirOk: (Inr u)
    show ?thesis
    proof (cases "readdir env fs1 (collectionPath c)")
      case (Inl error)
      with e dirOk show ?thesis by (simp add: all_docs_def)
    next
      case (Inr filesInDir)
      with e dirOk show ?thesis
        by (simp add: all_docs_def scanLoop_without_search [OF assms])
    qed
  qed
  have "all_docs c env fs None
          = (Inr (List.map_filter (keptEntry env fs (collectionPath c)) files), fs)"
    if dir: "lookupPath fs (collectionPath c) = Inr Dir"
      and mk: "io_fault env MkdirOp (collectionPath c) = None"
      and listing: "readdir env fs (collectionPath c) = Inr files"
    using ensureDirExists_existing [OF dir mk] listing
    by (simp add: all_docs_def scanLoop_no_query)
  with same show ?thesis by simp
qed

theorem query_without_search_is_ignored_witness:
  "search topLevelMatch = None
   \<and> lookupPath twoDocs (collectionPath users) = Inr Dir
   \<and> io_fault sampleEnv MkdirOp (collectionPath users) = None
   \<and> readdir sampleEnv twoDocs (collectionPath users) = Inr [''a.json'', ''b.json'']
   \<and> all_docs users sampleEnv twoDocs (Some topLevelMatch)
       = all_docs users sampleEnv twoDocs None
   \<and> all_docs users sampleEnv twoDocs (Some topLevelMatch)
       = (Inr (List.map_filter (keptEntry sampleEnv twoDocs (collectionPath users))
                 [''a.json'', ''b.json'']), twoDocs)
   \<and> all_docs users sampleEnv twoDocs (Some topLevelMatch)
       = (Inr [JObj [(''a'', JNum 1)]], twoDocs)"
proof -
  have h: "search topLevelMatch = None" by (simp add: topLevelMatch_def)
  have dir: "lookupPath twoDocs (collectionPath users) = Inr Dir"
    by (simp add: users_path lookup_twoDocs_dir)
  have mk: "io_fault sampleEnv MkdirOp (collectionPath users) = None"
    by (simp add: sampleEnv_simps)
  have listing: "readdir sampleEnv twoDocs (collectionPath users) = Inr [''a.json'', ''b.json'']"
    by (simp add: users_path readdir_twoDocs)
  note t = query_without_search_is_ignored [OF h, of users sampleEnv twoDocs
      "[''a.json'', ''b.json'']"]
  from t have same: "all_docs users sampleEnv twoDocs (Some topLevelMatch)
       = all_docs users sampleEnv twoDocs None"
    by blast
  from t dir mk listing
  have every: "all_docs users sampleEnv twoDocs (Some topLevelMatch)
       = (Inr (List.map_filter (keptEntry sampleEnv twoDocs (collectionPath users))
                 [''a.json'', ''b.json'']), twoDocs)"
    by blast
  from same all_twoDocs
  have "all_docs users sampleEnv twoDocs (Some topLevelMatch)
       = (Inr [JObj [(''a'', JNum 1)]], twoDocs)"
    by simp
  with h dir mk listing same every show ?thesis by blast
qed

section \<open>The matchers and their reference definitions\<close>

lemma shadowFree_lookup:
  assumes "shadowFree (JObj dobj)" and "map_of dobj k = Some dv"
  shows "shadowFree dv"
proof -
  from assms(2) have "(k, dv) \<in> set dobj" by (rule map_of_SomeD)
  with assms(1) show ?thesis by (auto simp: list_all_iff)
qed

lemma hasOwnProperty_shadowFree:
  assumes "shadowFree (JObj dobj)"
  shows "hasOwnProperty dobj k = Inr (map_of dobj k \<noteq> None)"
  using assms by (simp add: hasOwnProperty_def map_of_eq_None_iff)

lemma matchKeyLoop_step:
  assumes "shadowFree (JObj dobj)"
  shows "matchKeyLoop dobj (kv # rest) =
     (case map_of dobj (fst kv) of
        None \<Rightarrow> Inr False
      | Some dv \<Rightarrow>
         (case checkMatch dv (snd kv) of
            Inl e \<Rightarrow> Inl e
          | Inr b \<Rightarrow> if b then matchKeyLoop dobj rest else Inr False))"
  by (simp add: hasOwnProperty_shadowFree [OF assms] split: option.splits)

text \<open>
  On documents without an own key \<open>hasOwnProperty\<close>, \<open>_checkMatch\<close> never raises and
  computes \<open>matches_spec\<close>.
\<close>

lemma checkMatch_refines:
  "shadowFree d \<Longrightarrow> checkMatch d q = Inr (matches_spec d q)"
  and "list_all shadowFree ds \<Longrightarrow> length ds = length qs \<Longrightarrow>
       matchIndexLoop ds qs = Inr (list_all2 matches_spec ds qs)"
  and "shadowFree (JObj dobj) \<Longrightarrow>
       matchKeyLoop dobj qo =
         Inr (list_all (\<lambda>kv. case map_of dobj (fst kv) of
                              None \<Rightarrow> False
                            | Some dv \<Rightarrow> matches_spec dv (snd kv)) qo)"
proof (induction d q and ds qs and dobj qo rule: checkMatch_matchIndexLoop_matchKeyLoop.induct)
  case (1 d qs)
  show ?case
  proof (cases d)
    case (JArr ds)
    show ?thesis
    proof (cases "length ds = length qs")
      case True
      with 1 JArr show ?thesis by simp
    next
      case False
      then show ?thesis using JArr by (auto dest: list_all2_lengthD)
    qed
  qed simp_all
next
  case (2 d qo)
  then show ?case by (cases d) simp_all
next
  case (4 ds)
  then show ?case by simp
next
  case (5 ds q qs)
  from "5.prems" obtain d ds' where ds: "ds = d # ds'" by (cases ds) auto
  with "5.prems" have sf: "shadowFree d" "list_all shadowFree ds'" "length ds' = length qs"
    by simp_all
  have head: "checkMatch d q = Inr (matches_spec d q)" using "5.IH"(1) [OF ds sf(1)] .
  show ?case
  proof (cases "matches_spec d q")
    case True
    with head "5.IH"(2) [OF ds _ _ sf(2,3)] ds show ?thesis by simp
  next
    case False
    with head ds show ?thesis by simp
  qed
next
  case (6 dobj)
  then show ?case by simp
next
  case (7 dobj kv rest)
  note sf = "7.prems"
  have has: "hasOwnProperty dobj (fst kv) = Inr (map_of dobj (fst kv) \<noteq> None)"
    by (rule hasOwnProperty_shadowFree [OF sf])
  show ?case
  proof (cases "map_of dobj (fst kv)")
    case None
    then show ?thesis unfolding matchKeyLoop_step [OF sf] by simp
  next
    case (Some dv)
    have sfv: "shadowFree dv" by (rule shadowFree_lookup [OF sf Some])
    have nn: "\<not> \<not> map_of dobj (fst kv) \<noteq> None" using Some by simp
    have head: "checkMatch dv (snd kv) = Inr (matches_spec dv (snd kv))"
      by (rule "7.IH"(1) [OF has nn Some sfv])
    show ?thesis
    proof (cases "matches_spec dv (snd kv)")
      case True
      have "matchKeyLoop dobj rest =
         Inr (list_all (\<lambda>kv. case map_of dobj (fst kv) of
                              None \<Rightarrow> False
                            | Some dv \<Rightarrow> matches_spec dv (snd kv)) rest)"
        by (rule "7.IH"(2) [OF has nn Some head True sf])
      with head True Some show ?thesis unfolding matchKeyLoop_step [OF sf] by simp
    next
      case False
      with head Some show ?thesis unfolding matchKeyLoop_step [OF sf] by simp
    qed
  qed
qed (simp_all split: json.splits)


lemma likeItem_iff:
  "list_ex (likeItem q) ds \<longleftrightarrow>
     (\<exists>item \<in> set ds. \<exists>t. item = JStr t \<and> includesStr (toLowerCase t) q)"
proof (induction ds)
  case Nil
  show ?case by simp
next
  case (Cons d ds)
  then show ?case by (cases d) auto
qed

lemma likeKeyLoop_step:
  assumes "shadowFree (JObj dobj)"
  shows "likeKeyLoop dobj (kv # rest) =
     (case map_of dobj (fst kv) of
        None \<Rightarrow> Inr False
      | Some dv \<Rightarrow>
         (case checkLike dv (snd kv) of
            Inl e \<Rightarrow> Inl e
          | Inr b \<Rightarrow> if b then likeKeyLoop dobj rest else Inr False))"
  by (simp add: hasOwnProperty_shadowFree [OF assms] split: option.splits)

text \<open>
  On documents without an own key \<open>hasOwnProperty\<close>, \<open>_checkLike\<close> never raises and
  computes \<open>like_spec\<close>.
\<close>

lemma checkLike_refines:
  "shadowFree d \<Longrightarrow> checkLike d q = Inr (like_spec d q)"
  and "shadowFree (JObj dobj) \<Longrightarrow>
       likeKeyLoop dobj qo =
         Inr (list_all (\<lambda>kv. case map_of dobj (fst kv) of
                              None \<Rightarrow> False
                            | Some dv \<Rightarrow> like_spec dv (snd kv)) qo)"
proof (induction d q and dobj qo rule: checkLike_likeKeyLoop.induct)
  case (1 d qv)
  show ?case by (cases d) (simp_all add: likeItem_iff)
next
  case (2 d qs)
  show ?case by simp
next
  case (3 d qo)
  then show ?case by (cases d) simp_all
next
  case (5 dobj)
  then show ?case by simp
next
  case (6 dobj kv rest)
  note sf = "6.prems"
  have has: "hasOwnProperty dobj (fst kv) = Inr (map_of dobj (fst kv) \<noteq> None)"
    by (rule hasOwnProperty_shadowFree [OF sf])
  show ?case
  proof (cases "map_of dobj (fst kv)")
    case None
    then show ?thesis unfolding likeKeyLoop_step [OF sf] by simp
  next
    case (Some dv)
    have sfv: "shadowFree dv" by (rule shadowFree_lookup [OF sf Some])
    have nn: "\<not> \<not> map_of dobj (fst kv) \<noteq> None" using Some by simp
    have head: "checkLike dv (snd kv) = Inr (like_spec dv (snd kv))"
      by (rule "6.IH"(1) [OF has nn Some sfv])
    show ?thesis
    proof (cases "like_spec dv (snd kv)")
      case True
      have "likeKeyLoop dobj rest =
         Inr (list_all (\<lambda>kv. case map_of dobj (fst kv) of
                              None \<Rightarrow> False
                            | Some dv \<Rightarrow> like_spec dv (snd kv)) rest)"
        by (rule "6.IH"(2) [OF has nn Some head True sf])
      with head True Some show ?thesis unfolding likeKeyLoop_step [OF sf] by simp
    next
      case False
      with head Some show ?thesis unfolding likeKeyLoop_step [OF sf] by simp
    qed
  qed
qed (simp_all split: json.splits)

text \<open>
  Claim C1. The match predicate is the function \<open>matches_spec\<close>: containment or strict
  equality for a primitive or null query value, pairwise matching of sequences of equal
  length, and for a keyed query value a keyed document value that has every key of the
  query with a matching value; every mismatch gives false. The code departs from it on a
  document value that has an own key \<open>hasOwnProperty\<close>: the document
  \<open>{a: 1, hasOwnProperty: true}\<close> matches the query \<open>{a: 1}\<close>, and \<open>_checkMatch\<close> raises
  \<open>TypeError\<close> at \<open>docValue.hasOwnProperty(key)\<close>.
\<close>

theorem checkMatch_shadowed_hasOwnProperty:
  "checkMatch (JObj [(''a'', JNum 1), (''hasOwnProperty'', JBool True)]) (JObj [(''a'', JNum 1)])
     = Inl (TypeError msgNotAFunction)
   \<and> matches_spec (JObj [(''a'', JNum 1), (''hasOwnProperty'', JBool True)])
         (JObj [(''a'', JNum 1)])"
  by (simp add: hasOwnProperty_def)

text \<open>
  Claim C3. The like predicate is the function \<open>like_spec\<close>: for a text query value,
  case-insensitive containment in a text or in some text element of a sequence, false for
  any other document value; for a keyed query value a keyed document value, per key, all
  keys required; false for every sequence query value. The code departs from it on a
  document value that has an own key \<open>hasOwnProperty\<close>: the document
  \<open>{name: 'Laptop Pro', hasOwnProperty: true}\<close> is like the query \<open>{name: 'pro'}\<close>, and
  \<open>_checkLike\<close> raises \<open>TypeError\<close> at \<open>docValue.hasOwnProperty(key)\<close>.
\<close>

theorem checkLike_shadowed_hasOwnProperty:
  "checkLike (JObj [(''name'', JStr ''Laptop Pro''), (''hasOwnProperty'', JBool True)])
       (JObj [(''name'', JStr ''pro'')])
     = Inl (TypeError msgNotAFunction)
   \<and> like_spec (JObj [(''name'', JStr ''Laptop Pro''), (''hasOwnProperty'', JBool True)])
         (JObj [(''name'', JStr ''pro'')])"
  by (simp add: hasOwnProperty_def toLowerCase_def lowerChar_def upperLetters_def lowerLetters_def)

end
